theory Spec2Isabelle
  imports Main "HOL-Library.Sublist"
begin

section \<open>Python values shared by the modules\<close>

text \<open>
  Strings are Python 2 byte strings, modelled as \<open>string\<close> (a list of 8-bit characters).
  Every exception the modelled code can raise is a value of \<open>py_error\<close>; a function that
  can raise returns \<open>py_error + 'a\<close> with \<open>Inl\<close> for the raised exception.
  \<open>HTTP_Error msg value uri\<close> is the exception class of \<open>HttpSession.py\<close> with its three
  fields. \<open>TransportError s\<close> stands for an exception that \<open>httplib\<close> or \<open>requests\<close> raises
  (a socket error, a timeout, a protocol error), \<open>s\<close> being its \<open>str\<close>.
\<close>

datatype py_error =
    IndexError
  | KeyError string
  | ValueError
  | AttributeError string
  | TypeError
  | UnboundLocalError
  | HTTP_Error string string string
  | TransportError string

text \<open>\<open>s.startswith(p)\<close>: \<open>p\<close> is a prefix of \<open>s\<close>.\<close>

definition startswith :: "string \<Rightarrow> string \<Rightarrow> bool" where
  "startswith s p = prefix p s"

text \<open>The slice \<open>txt[b:c]\<close> for non-negative \<open>b\<close> and \<open>c\<close>; Python clamps both to the length.\<close>

definition slice :: "'a list \<Rightarrow> nat \<Rightarrow> nat \<Rightarrow> 'a list" where
  "slice txt b c = drop b (take c txt)"


text \<open>
  \<open>str.isspace\<close>, \<open>str.strip\<close> and the \<open>\s\<close> of \<open>re\<close> on byte strings: space, tab, newline,
  vertical tab, form feed and carriage return.
\<close>

definition isspace :: "char \<Rightarrow> bool" where
  "isspace c = (c \<in> set [CHR '' '', CHR 0x09, CHR 0x0A, CHR 0x0B, CHR 0x0C, CHR 0x0D])"

text \<open>\<open>str.lower\<close> on a byte string: only the ASCII letters change.\<close>

definition lower_char :: "char \<Rightarrow> char" where
  "lower_char c =
     (case map_of (zip ''ABCDEFGHIJKLMNOPQRSTUVWXYZ'' ''abcdefghijklmnopqrstuvwxyz'') c of
        Some l \<Rightarrow> l
      | None \<Rightarrow> c)"

definition lower :: "string \<Rightarrow> string" where
  "lower s = map lower_char s"

definition rstrip :: "string \<Rightarrow> string" where
  "rstrip s = rev (dropWhile isspace (rev s))"

definition strip :: "string \<Rightarrow> string" where
  "strip s = rstrip (dropWhile isspace s)"

text \<open>\<open>a in s\<close> for strings: \<open>a\<close> occurs in \<open>s\<close> as a substring.\<close>

fun contains :: "string \<Rightarrow> string \<Rightarrow> bool" where
  "contains [] a = (a = [])"
| "contains (c # cs) a = (prefix a (c # cs) \<or> contains cs a)"

text \<open>
  \<open>s.split(sep, 1)\<close> cuts \<open>s\<close> at the first occurrence of \<open>sep\<close>: \<open>split_once\<close> gives the
  two pieces, or \<open>None\<close> when \<open>sep\<close> does not occur (the list \<open>[s]\<close> in Python). Then
  \<open>s.split(sep, 1)[1]\<close> raises \<open>IndexError\<close> without an occurrence, and
  \<open>s.split(sep, 1)[0]\<close> is \<open>s\<close> itself.
\<close>

fun split_once :: "string \<Rightarrow> string \<Rightarrow> (string \<times> string) option" where
  "split_once [] sep = (if sep = [] then Some ([], []) else None)"
| "split_once (c # cs) sep =
     (if prefix sep (c # cs) then Some ([], drop (length sep) (c # cs))
      else map_option (\<lambda>(a, b). (c # a, b)) (split_once cs sep))"

definition split_after :: "string \<Rightarrow> string \<Rightarrow> py_error + string" where
  "split_after s sep = (case split_once s sep of None \<Rightarrow> Inl IndexError | Some (a, b) \<Rightarrow> Inr b)"

definition split_before :: "string \<Rightarrow> string \<Rightarrow> string" where
  "split_before s sep = (case split_once s sep of None \<Rightarrow> s | Some (a, b) \<Rightarrow> a)"

text \<open>
  A dictionary with string keys whose emptiness the code tests (\<open>if not reqheaders\<close>) is an
  association list with one entry per key; \<open>d[k] = v\<close> is \<open>dict_set\<close>.
\<close>

fun dict_set :: "'k \<Rightarrow> 'v \<Rightarrow> ('k \<times> 'v) list \<Rightarrow> ('k \<times> 'v) list" where
  "dict_set k v [] = [(k, v)]"
| "dict_set k v ((k', v') # d) = (if k' = k then (k, v) # d else (k', v') # dict_set k v d)"

section \<open>MiscUtils/HttpSession.py: the header tokenizer \<open>splitValues\<close>\<close>

text \<open>
  \<open>lq.index(c)\<close>: the position of the first occurrence of \<open>c\<close>. The source calls it only
  after \<open>c in lq\<close> has been checked, so the value on a missing element is never read.
\<close>

fun str_index :: "'a list \<Rightarrow> 'a \<Rightarrow> nat" where
  "str_index [] c = 0"
| "str_index (x # xs) c = (if x = c then 0 else Suc (str_index xs c))"

abbreviation backslash :: char where
  "backslash \<equiv> CHR 0x5C"

abbreviation dquote :: char where
  "dquote \<equiv> CHR 0x22"

text \<open>
  The inner loop of \<open>splitValues\<close>, entered with the cursor just after an opening quote:
  \<^verbatim>\<open>
  while cursor < len(txt) and txt[cursor] != eq:
      if txt[cursor] == '\\': cursor += 1 # skip '\' quoted-pair
      cursor += 1
  \<close>
  It returns the cursor where the loop stops; after a backslash at the last position that
  is \<open>len(txt) + 1\<close>.
\<close>

function skipQuoted :: "string \<Rightarrow> char \<Rightarrow> nat \<Rightarrow> nat" where
  "skipQuoted txt eq cursor =
     (if cursor < length txt \<and> txt ! cursor \<noteq> eq
      then skipQuoted txt eq ((if txt ! cursor = backslash then cursor + 1 else cursor) + 1)
      else cursor)"
  by pat_completeness auto
termination
  by (relation "measure (\<lambda>(txt, eq, cursor). length txt - cursor)") auto

declare skipQuoted.simps [simp del]

text \<open>The inner loop never moves the cursor backwards; the outer loop's termination needs this.\<close>

lemma skipQuoted_ge: "cursor \<le> skipQuoted t eq cursor"
proof (induction t eq cursor rule: skipQuoted.induct)
  case (1 t eq cursor)
  show ?case
  proof (cases "cursor < length t \<and> t ! cursor \<noteq> eq")
    case True
    with 1 show ?thesis by (subst skipQuoted.simps) (auto split: if_splits)
  next
    case False
    then show ?thesis by (subst skipQuoted.simps) auto
  qed
qed

text \<open>
  The outer loop, with the local variables \<open>result\<close>, \<open>cursor\<close> and \<open>begseg\<close> as arguments:
  \<^verbatim>\<open>
  while cursor < len(txt):
      if txt[cursor] in lq:
          eq = rq[lq.index(txt[cursor])]
          cursor += 1
          (inner loop)
          if cursor < len(txt): cursor += 1
      elif txt[cursor] in sep:
          result.append(txt[begseg:cursor]); cursor += 1; begseg = cursor
      else:
          cursor += 1
  result.append(txt[begseg:cursor])
  return result
  \<close>
  \<open>rq[i]\<close> raises \<open>IndexError\<close> when \<open>rq\<close> has no position \<open>i\<close>.
\<close>

function splitLoop ::
  "string \<Rightarrow> string \<Rightarrow> string \<Rightarrow> string \<Rightarrow> string list \<Rightarrow> nat \<Rightarrow> nat \<Rightarrow> py_error + string list"
where
  "splitLoop txt sep lq rq result cursor begseg =
     (if cursor < length txt then
        (if txt ! cursor \<in> set lq then
           (if str_index lq (txt ! cursor) < length rq then
              (let eq = rq ! str_index lq (txt ! cursor);
                   cursor1 = skipQuoted txt eq (cursor + 1);
                   cursor2 = (if cursor1 < length txt then cursor1 + 1 else cursor1)
               in splitLoop txt sep lq rq result cursor2 begseg)
            else Inl IndexError)
         else if txt ! cursor \<in> set sep then
           splitLoop txt sep lq rq (result @ [slice txt begseg cursor]) (cursor + 1) (cursor + 1)
         else splitLoop txt sep lq rq result (cursor + 1) begseg)
      else Inr (result @ [slice txt begseg cursor]))"
  by pat_completeness auto
termination
proof (relation "measure (\<lambda>(txt, sep, lq, rq, result, cursor, begseg). length txt - cursor)")
  fix t :: string and sep lq rq :: string and result :: "string list" and cursor begseg :: nat
    and x :: char and xa xb :: nat
  assume a: "cursor < length t" and x: "xa = skipQuoted t x (cursor + 1)"
    and xb: "xb = (if xa < length t then xa + 1 else xa)"
  have "cursor + 1 \<le> xa" using x skipQuoted_ge by simp
  then have "cursor < xb" using xb by simp
  then show "((t, sep, lq, rq, result, xb, begseg), t, sep, lq, rq, result, cursor, begseg)
       \<in> measure (\<lambda>(t, sep, lq, rq, result, cursor, begseg). length t - cursor)"
    using a by simp
qed auto

declare splitLoop.simps [simp del]

definition splitValues :: "string \<Rightarrow> string \<Rightarrow> string \<Rightarrow> string \<Rightarrow> py_error + string list" where
  "splitValues txt sep lq rq = splitLoop txt sep lq rq [] 0 0"

text \<open>The defaults of the source: \<^verbatim>\<open>sep=",", lq='"<', rq='">'\<close>.\<close>

definition default_lq :: string where
  "default_lq = [dquote, CHR ''<'']"

definition default_rq :: string where
  "default_rq = [dquote, CHR ''>'']"

subsection \<open>The tokenizer as the specification words it\<close>

text \<open>
  The specification describes the tokenizer by spans: a span opens on a character of the
  opening set and closes on its paired character; inside a span separators are inert and a
  backslash skips the following character; an unterminated span runs to the end of the
  string. \<open>unquoted_seps\<close> reads the string once, left to right, and marks the characters
  that are separators outside every span. The pairs are given as a list of (opening,
  closing) characters; the first pair of an opening character counts.
\<close>

datatype scan_state = Outside | InSpan char | Escaped char

fun unquoted_seps :: "string \<Rightarrow> (char \<times> char) list \<Rightarrow> scan_state \<Rightarrow> string \<Rightarrow> bool list" where
  "unquoted_seps sep pairs st [] = []"
| "unquoted_seps sep pairs Outside (c # cs) =
     (case map_of pairs c of
        Some eq \<Rightarrow> False # unquoted_seps sep pairs (InSpan eq) cs
      | None \<Rightarrow> (c \<in> set sep) # unquoted_seps sep pairs Outside cs)"
| "unquoted_seps sep pairs (InSpan eq) (c # cs) =
     False # unquoted_seps sep pairs
       (if c = eq then Outside else if c = backslash then Escaped eq else InSpan eq) cs"
| "unquoted_seps sep pairs (Escaped eq) (c # cs) = False # unquoted_seps sep pairs (InSpan eq) cs"

text \<open>
  \<open>cut_at seg marks xs\<close> splits \<open>xs\<close> at the marked positions, dropping the marked elements;
  \<open>seg\<close> is the segment read so far. The last segment is always part of the result.
\<close>

fun cut_at :: "'a list \<Rightarrow> bool list \<Rightarrow> 'a list \<Rightarrow> 'a list list" where
  "cut_at seg (m # ms) (x # xs) = (if m then seg # cut_at [] ms xs else cut_at (seg @ [x]) ms xs)"
| "cut_at seg ms xs = [seg]"

definition count_marks :: "bool list \<Rightarrow> nat" where
  "count_marks ms = length (filter id ms)"

text \<open>
  The cursor after a span, for the proofs: the inner loop, then the step over the closing
  quote.
\<close>

definition after_span :: "string \<Rightarrow> char \<Rightarrow> nat \<Rightarrow> nat" where
  "after_span t eq c = (let c1 = skipQuoted t eq c in if c1 < length t then c1 + 1 else c1)"

section \<open>MiscUtils/HttpSession.py: the link header parser \<open>parseLinks\<close>\<close>

subsection \<open>The regular expressions\<close>

text \<open>
  \<open>parseLinks\<close> uses two patterns with \<open>re.match\<close>, which anchors a match at the start of
  the string and nowhere else:
  \<^verbatim>\<open>\s*<([^>]*)>\s*\<close> and \<^verbatim>\<open>\s*rel\s*=\s*"?(.*?)"?\s*$\<close>.
  Both are sequences of one-character items, so a pattern is a list of items over
  character classes: \<open>Lit c\<close> is the character \<open>c\<close>, \<open>NotLit c\<close> is \<open>[^c]\<close>, \<open>Space\<close> is
  \<open>\s\<close> and \<open>Dot\<close> is \<open>.\<close>, which matches every character but a newline. \<open>One k\<close> matches
  one character, \<open>Star k\<close> is the greedy \<open>k*\<close>, \<open>Opt k\<close> the greedy \<open>k?\<close>, \<open>GroupStar k\<close>
  is a greedy \<open>(k*)\<close> and \<open>GroupLazy k\<close> the non-greedy \<open>(k*?)\<close>, both capturing group 1;
  \<open>Eol\<close> is \<open>$\<close>, which matches at the end of the string and before a newline that ends it.
\<close>

datatype cclass = Lit char | NotLit char | Space | Dot

fun cmatch :: "cclass \<Rightarrow> char \<Rightarrow> bool" where
  "cmatch (Lit a) c = (c = a)"
| "cmatch (NotLit a) c = (c \<noteq> a)"
| "cmatch Space c = isspace c"
| "cmatch Dot c = (c \<noteq> CHR 0x0A)"

datatype item = One cclass | Star cclass | Opt cclass | GroupStar cclass | GroupLazy cclass | Eol

text \<open>
  \<open>re_match items s g\<close> is the backtracking matcher of \<open>re\<close>: \<open>s\<close> is the text still to be
  read, \<open>g\<close> what group 1 holds so far; the result is group 1 of the first match in the
  matcher's order of preference (a greedy item tries the longer alternative first, a
  non-greedy one the shorter), or \<open>None\<close> when nothing matches.
\<close>

fun re_match :: "item list \<Rightarrow> string \<Rightarrow> string \<Rightarrow> string option" where
  "re_match [] s g = Some g"
| "re_match (One k # r) [] g = None"
| "re_match (One k # r) (c # cs) g = (if cmatch k c then re_match r cs g else None)"
| "re_match (Star k # r) [] g = re_match r [] g"
| "re_match (Star k # r) (c # cs) g =
     (if cmatch k c then
        (case re_match (Star k # r) cs g of Some m \<Rightarrow> Some m | None \<Rightarrow> re_match r (c # cs) g)
      else re_match r (c # cs) g)"
| "re_match (Opt k # r) [] g = re_match r [] g"
| "re_match (Opt k # r) (c # cs) g =
     (if cmatch k c then
        (case re_match r cs g of Some m \<Rightarrow> Some m | None \<Rightarrow> re_match r (c # cs) g)
      else re_match r (c # cs) g)"
| "re_match (GroupStar k # r) [] g = re_match r [] g"
| "re_match (GroupStar k # r) (c # cs) g =
     (if cmatch k c then
        (case re_match (GroupStar k # r) cs (g @ [c]) of Some m \<Rightarrow> Some m
         | None \<Rightarrow> re_match r (c # cs) g)
      else re_match r (c # cs) g)"
| "re_match (GroupLazy k # r) [] g = re_match r [] g"
| "re_match (GroupLazy k # r) (c # cs) g =
     (case re_match r (c # cs) g of Some m \<Rightarrow> Some m
      | None \<Rightarrow> if cmatch k c then re_match (GroupLazy k # r) cs (g @ [c]) else None)"
| "re_match (Eol # r) s g = (if s = [] \<or> s = [CHR 0x0A] then re_match r s g else None)"

definition link_re :: "item list" where
  "link_re = [Star Space, One (Lit CHR ''<''), GroupStar (NotLit CHR ''>''), One (Lit CHR ''>''), Star Space]"

definition rel_re :: "item list" where
  "rel_re = [Star Space, One (Lit CHR ''r''), One (Lit CHR ''e''), One (Lit CHR ''l''), Star Space,
             One (Lit CHR ''=''), Star Space, Opt (Lit dquote), GroupLazy Dot, Opt (Lit dquote),
             Star Space, Eol]"


subsection \<open>The parser\<close>

text \<open>
  The result dictionary \<open>links\<close> maps a relation to a URI; only lookups and stores are made
  on it, so it is a map.
  \<^verbatim>\<open>
  for linkparam in linkparts[1:]:
      linkmatch = re.match(r'\s*rel\s*=\s*"?(.*?)"?\s*$', linkparam)
      if linkmatch:
          linkrel = linkmatch.group(1)
          links[linkrel] = linkuri
  \<close>
\<close>

type_synonym links = "string \<rightharpoonup> string"

fun linkparams_loop :: "string \<Rightarrow> string list \<Rightarrow> links \<Rightarrow> links" where
  "linkparams_loop linkuri [] links = links"
| "linkparams_loop linkuri (linkparam # ps) links =
     (case re_match rel_re linkparam [] of
        Some linkrel \<Rightarrow> linkparams_loop linkuri ps (links(linkrel \<mapsto> linkuri))
      | None \<Rightarrow> linkparams_loop linkuri ps links)"

text \<open>
  The body of the loop over the comma-separated values of one header:
  \<^verbatim>\<open>
  linkparts = splitValues(linkval, ";")
  linkmatch = re.match(r'\s*<([^>]*)>\s*', linkparts[0])
  if linkmatch:
      linkuri = linkmatch.group(1)
      (loop over linkparts[1:])
  \<close>
  \<open>linkparts[0]\<close> raises \<open>IndexError\<close> on an empty list.
\<close>

definition linkval_body :: "string \<Rightarrow> links \<Rightarrow> py_error + links" where
  "linkval_body linkval links =
     (case splitValues linkval '';'' default_lq default_rq of
        Inl e \<Rightarrow> Inl e
      | Inr linkparts \<Rightarrow>
          (case linkparts of
             [] \<Rightarrow> Inl IndexError
           | part0 # params \<Rightarrow>
               (case re_match link_re part0 [] of
                  Some linkuri \<Rightarrow> Inr (linkparams_loop linkuri params links)
                | None \<Rightarrow> Inr links)))"

fun linkvals_loop :: "string list \<Rightarrow> links \<Rightarrow> py_error + links" where
  "linkvals_loop [] links = Inr links"
| "linkvals_loop (linkval # vs) links =
     (case linkval_body linkval links of
        Inl e \<Rightarrow> Inl e
      | Inr links' \<Rightarrow> linkvals_loop vs links')"

text \<open>\<^verbatim>\<open>for linkheader in linkheaders: for linkval in splitValues(linkheader, ","): ...\<close>\<close>

fun linkheaders_loop :: "string list \<Rightarrow> links \<Rightarrow> py_error + links" where
  "linkheaders_loop [] links = Inr links"
| "linkheaders_loop (linkheader # hs) links =
     (case splitValues linkheader '','' default_lq default_rq of
        Inl e \<Rightarrow> Inl e
      | Inr linkvals \<Rightarrow>
          (case linkvals_loop linkvals links of
             Inl e \<Rightarrow> Inl e
           | Inr links' \<Rightarrow> linkheaders_loop hs links'))"

text \<open>
  \<^verbatim>\<open>linkheaders = [ v for (h,v) in headerlist if h.lower() == "link" ]\<close>, then the loops,
  starting from the empty dictionary.
\<close>

definition parseLinks :: "(string \<times> string) list \<Rightarrow> py_error + links" where
  "parseLinks headerlist =
     linkheaders_loop (map snd (filter (\<lambda>(h, v). lower h = ''link'') headerlist)) Map.empty"

subsection \<open>The link map as the specification words it\<close>

text \<open>
  \<open>tokens sep v\<close> are the segments of \<open>v\<close> between its separators outside double quotes
  and outside angle brackets.
\<close>

definition tokens :: "string \<Rightarrow> string \<Rightarrow> string list" where
  "tokens sep v = cut_at [] (unquoted_seps sep [(dquote, dquote), (CHR ''<'', CHR ''>'')] Outside v) v"

text \<open>
  The first part of a value names a target when, after optional whitespace, it starts with
  \<open><\<close> and a \<open>>\<close> follows; the target is the text between the two. What follows the
  closing bracket is not looked at.
\<close>

definition link_target :: "string \<Rightarrow> string option" where
  "link_target part =
     (case dropWhile isspace part of
        [] \<Rightarrow> None
      | c # r \<Rightarrow> if c = CHR ''<'' \<and> CHR ''>'' \<in> set r
                 then Some (takeWhile (\<lambda>x. x \<noteq> CHR ''>'') r) else None)"

text \<open>
  The value of a \<open>rel\<close> parameter: the text after \<open>=\<close> without leading whitespace, without
  one leading double quote, without trailing whitespace and without one trailing double
  quote. A value that holds a newline is no value.
\<close>

definition rel_value :: "string \<Rightarrow> string option" where
  "rel_value v =
     (let v1 = dropWhile isspace v;
          v2 = (case v1 of [] \<Rightarrow> [] | c # r \<Rightarrow> if c = dquote then r else v1);
          v3 = rstrip v2;
          v4 = (if v3 \<noteq> [] \<and> last v3 = dquote then butlast v3 else v3)
      in if CHR 0x0A \<in> set v4 then None else Some v4)"

definition rel_param :: "string \<Rightarrow> string option" where
  "rel_param p =
     (let p1 = dropWhile isspace p in
      if take 3 p1 = ''rel'' then
        (case dropWhile isspace (drop 3 p1) of
           [] \<Rightarrow> None
         | c # v \<Rightarrow> if c = CHR ''='' then rel_value v else None)
      else None)"

text \<open>
  One comma-separated value contributes its target under every relation its later parts
  give; a store overwrites what the map held for the relation.
\<close>

definition links_of_value :: "string \<Rightarrow> links \<Rightarrow> links" where
  "links_of_value linkval m =
     (case tokens '';'' linkval of
        [] \<Rightarrow> m
      | part0 # params \<Rightarrow>
          (case link_target part0 of
             None \<Rightarrow> m
           | Some uri \<Rightarrow>
               fold (\<lambda>p m'. case rel_param p of None \<Rightarrow> m' | Some r \<Rightarrow> m'(r \<mapsto> uri)) params m))"

definition links_spec :: "(string \<times> string) list \<Rightarrow> links" where
  "links_spec headerlist =
     fold (\<lambda>v m. fold links_of_value (tokens '','' v) m)
       (map snd (filter (\<lambda>(h, v). lower h = ''link'') headerlist)) Map.empty"

text \<open>
  The shape the specification asks of the first part: a bracketed URI and nothing but
  whitespace around it.
\<close>

definition is_bracketed_uri :: "string \<Rightarrow> bool" where
  "is_bracketed_uri part =
     (case strip part of
        [] \<Rightarrow> False
      | c # r \<Rightarrow> c = CHR ''<'' \<and> r \<noteq> [] \<and> last r = CHR ''>'' \<and> CHR ''>'' \<notin> set (butlast r))"

text \<open>The lookup \<open>parseLinks(...)[k]\<close> on a result, \<open>None\<close> where the key is missing.\<close>

definition lookup :: "py_error + links \<Rightarrow> string \<Rightarrow> string option" where
  "lookup r k = (case r of Inl e \<Rightarrow> None | Inr m \<Rightarrow> m k)"

text \<open>The headers of \<open>testParseLinks\<close> in the source.\<close>

definition testlinks :: "(string \<times> string) list" where
  "testlinks =
    [(''Link'', ''<http://example.org/foo>; rel=foo''),
     (''Link'', '' <http://example.org/bar> ; rel = bar ''),
     (''Link'', ''<http://example.org/bas>; rel=bas; par = zzz , <http://example.org/bat>; rel = bat''),
     (''Link'', '' <http://example.org/fie> ; par = fie ''),
     (''Link'', '' <http://example.org/fum> ; rel = '' @ [dquote] @ ''http://example.org/rel/fum''
                 @ [dquote] @ '' ''),
     (''Link'', '' <http://example.org/fas;far> ; rel = '' @ [dquote] @ ''http://example.org/rel/fas''
                 @ [dquote] @ '' '')]"

subsection \<open>Auxiliary notions for the proofs about the \<open>rel\<close> pattern\<close>

text \<open>
  The end of the \<open>rel\<close> pattern, \<^verbatim>\<open>"?\s*$\<close>, matches exactly the texts that are whitespace,
  or a double quote followed by whitespace (\<open>tail_ok\<close>). \<open>lazy_re\<close> is the pattern from its
  group on, \<open>value_end\<close> the text its group captures; \<open>lazy_m\<close>, \<open>quoted_m\<close> and \<open>spaced_m\<close>
  name the matcher on the last four, five and six items of the pattern.
\<close>

definition tail_ok :: "string \<Rightarrow> bool" where
  "tail_ok s = (list_all isspace s \<or> (case s of [] \<Rightarrow> False | c # t \<Rightarrow> c = dquote \<and> list_all isspace t))"

abbreviation lazy_re :: "item list" where
  "lazy_re \<equiv> [GroupLazy Dot, Opt (Lit dquote), Star Space, Eol]"

definition value_end :: "string \<Rightarrow> string" where
  "value_end s = (let v3 = rstrip s in if v3 \<noteq> [] \<and> last v3 = dquote then butlast v3 else v3)"

definition lazy_m :: "string \<Rightarrow> string \<Rightarrow> string option" where
  "lazy_m s g = re_match lazy_re s g"

definition quoted_m :: "string \<Rightarrow> string \<Rightarrow> string option" where
  "quoted_m s g = re_match (Opt (Lit dquote) # lazy_re) s g"

definition spaced_m :: "string \<Rightarrow> string \<Rightarrow> string option" where
  "spaced_m s g = re_match (Star Space # Opt (Lit dquote) # lazy_re) s g"

section \<open>MiscUtils/HttpSession.py: the class \<open>HTTP_Session\<close>\<close>

subsection \<open>The session, the connections and the libraries around them\<close>

text \<open>
  \<open>urlparse\<close>, \<open>httplib\<close>, \<open>requests\<close>, \<open>json\<close> and \<open>rdflib\<close> are libraries outside the
  repository. What they compute is a parameter of the model (the record \<open>env\<close>); what the
  code does with their results, and which of their exceptions it catches, is modelled.

  \<open>uriparts\<close> is the result of \<open>urlparse.urlsplit\<close>, with the fields the code reads.
\<close>

record uriparts =
  uri_scheme :: string
  uri_netloc :: string
  uri_path :: string
  uri_query :: string

text \<open>
  The fields of an \<open>HTTP_Session\<close> object: \<open>_baseuri\<close>, \<open>_key\<close> (the access key, \<open>None\<close>
  when absent), \<open>_scheme\<close> and \<open>_host\<close>. The field \<open>_httpcon\<close> is the connection
  \<open>SessionConn\<close> below.
\<close>

record session =
  s_baseuri :: string
  s_key :: "string option"
  s_scheme :: string
  s_host :: string

text \<open>
  A request goes over the session's own connection or over one made for the call by
  \<open>httplib.HTTPConnection(netloc)\<close>. The history of a run is the list of the calls made on
  connections and libraries: \<open>Request c method path body headers\<close> is
  \<open>c.request(method, path, body, headers)\<close>, \<open>Close c\<close> is \<open>c.close()\<close>, \<open>RequestsGet u\<close>
  is \<open>requests.get(u)\<close> (or \<open>session.get(u)\<close>) and \<open>RdfParse data format\<close> is
  \<open>rdfgraph.parse(data=data, format=format)\<close>.
\<close>

datatype conn = SessionConn | NewConn string

datatype event =
    Request conn string string "string option" "(string \<times> string) list"
  | Close conn
  | RequestsGet string
  | RdfParse string string

text \<open>
  What happens to a request: \<open>usehttpcon.request(...)\<close> raises (the connection cannot be
  opened, the request cannot be sent); or the request is sent and a statement of the
  \<open>try\<close> block raises (\<open>getresponse()\<close> or \<open>read()\<close>); or the response arrives with its
  status, reason, headers and body. The strings of the first two are \<open>str(e)\<close>.
\<close>

datatype outcome =
    RequestRaises string
  | ResponseRaises string
  | Response int string "(string \<times> string) list" string

text \<open>
  An RDF graph is the list of its triples; \<open>rdflib\<close> is not modelled beyond that.
\<close>

datatype node = URIRef string | BNode string | Literal string

type_synonym triple = "node \<times> node \<times> node"

type_synonym graph = "triple list"

text \<open>The fields of a \<open>requests\<close> response that the code reads.\<close>

record rresponse =
  r_url :: string
  r_status_code :: int
  r_reason :: string
  r_headers :: "(string \<times> string) list"
  r_content :: string

text \<open>
  The libraries: \<open>resolve base ref\<close> is \<open>urlsplit(urljoin(base, str(ref)))\<close>; \<open>server\<close>
  answers the last request of a history, and may depend on all of it; \<open>requests_get\<close>
  answers the last \<open>RequestsGet\<close> of a history or raises; \<open>json_results_text data\<close> is
  \<open>json.loads(data)\<close> followed by the reading of \<open>output["results"][0]["text"]\<close> (\<open>None\<close>
  when \<open>'results'\<close> is missing or empty, \<open>Inl\<close> when any of it raises); \<open>rdf_parse g data
  format\<close> is the graph after \<open>g.parse(data=data, format=format)\<close>, or the exception.
\<close>

record env =
  resolve :: "string \<Rightarrow> string \<Rightarrow> uriparts"
  server :: "event list \<Rightarrow> outcome"
  requests_get :: "event list \<Rightarrow> py_error + rresponse"
  json_results_text :: "string \<Rightarrow> py_error + string option"
  rdf_parse :: "graph \<Rightarrow> string \<Rightarrow> string \<Rightarrow> py_error + graph"

text \<open>
  The response headers are a dictionary from lower-cased names to strings that also holds,
  under the key \<open>_headerlist\<close>, the list of all (name, value) pairs.
\<close>

datatype hval = HStr string | HList "(string \<times> string) list"

type_synonym headers = "string \<rightharpoonup> hval"

type_synonym pydict = "(string \<times> string) list"

type_synonym response4 = "int \<times> string \<times> headers \<times> string option"

text \<open>\<^verbatim>\<open>if v: d[k] = pre + v\<close>, for a \<open>v\<close> that is \<open>None\<close> or a string.\<close>

definition set_if_truthy :: "string \<Rightarrow> string \<Rightarrow> string option \<Rightarrow> pydict \<Rightarrow> pydict" where
  "set_if_truthy k pre v d =
     (case v of None \<Rightarrow> d | Some s \<Rightarrow> if s \<noteq> [] then dict_set k (pre @ s) d else d)"

text \<open>
  \<^verbatim>\<open>
  headerlist = [ (h.lower(),v) for (h,v) in response.getheaders() ]
  headers  = dict(headerlist)   # dict(...) keeps last result of multiple keys
  headers["_headerlist"] = headerlist
  \<close>
\<close>

definition lowered :: "(string \<times> string) list \<Rightarrow> (string \<times> string) list" where
  "lowered hdrs = map (\<lambda>(h, v). (lower h, v)) hdrs"

definition response_headers :: "(string \<times> string) list \<Rightarrow> headers" where
  "response_headers hdrs =
     (map_of (rev (map (\<lambda>(h, v). (h, HStr v)) (lowered hdrs))))(''_headerlist'' \<mapsto> HList (lowered hdrs))"

text \<open>\<^verbatim>\<open>if newhttpcon: newhttpcon.close()\<close>\<close>

definition closing :: "conn option \<Rightarrow> event list \<Rightarrow> event list" where
  "closing newhttpcon hist = (case newhttpcon of None \<Rightarrow> hist | Some c \<Rightarrow> hist @ [Close c])"

subsection \<open>\<open>doRequest\<close>\<close>

text \<open>
  The second half of \<open>doRequest\<close>, from \<open># Assemble request headers\<close> on, with the
  connection and key chosen by the first half:
  \<^verbatim>\<open>
  if not reqheaders: reqheaders = {}
  if usekey: reqheaders["authorization"] = "Bearer "+usekey
  if ctype:  reqheaders["content-type"] = ctype
  if accept: reqheaders["accept"] = accept
  usehttpcon.request(method, path, body, reqheaders)
  try:
      response = usehttpcon.getresponse()
      status = response.status; reason = response.reason
      (headerlist and headers as above)
      data = response.read()
      if status < 200 or status >= 300: data = None
  except Exception, e:
      status = 900; reason = str(e); headers = {"_headerlist": []}; data = None
  if newhttpcon: newhttpcon.close()
  return (status, reason, headers, data)
  \<close>
  The call of \<open>request\<close> stands before the \<open>try\<close>: an exception it raises leaves
  \<open>doRequest\<close>. A dictionary the caller passes is updated in place unless it is empty, so
  the second component of the result is the caller's dictionary after the call.
\<close>

definition send_request ::
  "env \<Rightarrow> event list \<Rightarrow> string \<Rightarrow> string \<Rightarrow> string option \<Rightarrow> string option \<Rightarrow> string option \<Rightarrow>
   pydict option \<Rightarrow> conn option \<Rightarrow> conn \<Rightarrow> string option \<Rightarrow>
   event list \<times> pydict option \<times> (py_error + response4)"
where
  "send_request e hist meth path body ctype accept reqheaders newhttpcon usehttpcon usekey =
     (let h0 = (case reqheaders of None \<Rightarrow> [] | Some d \<Rightarrow> d);
          h1 = set_if_truthy ''authorization'' ''Bearer '' usekey h0;
          h2 = set_if_truthy ''content-type'' [] ctype h1;
          h3 = set_if_truthy ''accept'' [] accept h2;
          caller = (case reqheaders of None \<Rightarrow> None | Some d \<Rightarrow> if d = [] then Some [] else Some h3);
          hist1 = hist @ [Request usehttpcon meth path body h3]
      in case server e hist1 of
           RequestRaises err \<Rightarrow> (hist1, caller, Inl (TransportError err))
         | ResponseRaises err \<Rightarrow>
             (closing newhttpcon hist1, caller,
              Inr (900, err, [''_headerlist'' \<mapsto> HList []], None))
         | Response status reason hdrs data \<Rightarrow>
             (closing newhttpcon hist1, caller,
              Inr (status, reason, response_headers hdrs,
                   if status < 200 \<or> status \<ge> 300 then None else Some data)))"

text \<open>
  The first half:
  \<^verbatim>\<open>
  uriparts = urlparse.urlsplit(self.getpathuri(uripath))
  path     = uriparts.path
  if uriparts.query: path += ("?"+uriparts.query)
  if ( (uriparts.scheme and uriparts.scheme != self._scheme) or
       (uriparts.netloc and uriparts.netloc != self._host) ):
      if exthost:
          newhttpcon = httplib.HTTPConnection(uriparts.netloc)
          usehttpcon = newhttpcon; usescheme = uriparts.scheme; usekey = None
      elif (uriparts.scheme and uriparts.scheme != self._scheme):
          raise HTTP_Error("URI scheme mismatch", value=uriparts.scheme, uri=self._baseuri)
      elif (uriparts.netloc and uriparts.netloc != self._host):
          raise HTTP_Error("URI host:port mismatch", value=uriparts.netloc, uri=self._baseuri)
  else:
      newhttpcon = None; usehttpcon = self._httpcon
      usescheme = self._scheme; usekey = self._key
  \<close>
  The last \<open>else\<close> of the model stands for the path on which no branch of the
  \<open>if ... elif ... elif\<close> is taken; the outer test excludes it.
\<close>

definition doRequest ::
  "env \<Rightarrow> session \<Rightarrow> event list \<Rightarrow> string \<Rightarrow> string \<Rightarrow> string option \<Rightarrow> string option \<Rightarrow>
   string option \<Rightarrow> pydict option \<Rightarrow> bool \<Rightarrow>
   event list \<times> pydict option \<times> (py_error + response4)"
where
  "doRequest e self hist uripath meth body ctype accept reqheaders exthost =
     (let uriparts = resolve e (s_baseuri self) uripath;
          path = uri_path uriparts @ (if uri_query uriparts \<noteq> [] then ''?'' @ uri_query uriparts else []);
          scheme_differs = (uri_scheme uriparts \<noteq> [] \<and> uri_scheme uriparts \<noteq> s_scheme self);
          host_differs = (uri_netloc uriparts \<noteq> [] \<and> uri_netloc uriparts \<noteq> s_host self)
      in if scheme_differs \<or> host_differs then
           (if exthost then
              send_request e hist meth path body ctype accept reqheaders
                (Some (NewConn (uri_netloc uriparts))) (NewConn (uri_netloc uriparts)) None
            else if scheme_differs then
              (hist, reqheaders,
               Inl (HTTP_Error ''URI scheme mismatch'' (uri_scheme uriparts) (s_baseuri self)))
            else if host_differs then
              (hist, reqheaders,
               Inl (HTTP_Error ''URI host:port mismatch'' (uri_netloc uriparts) (s_baseuri self)))
            else (hist, reqheaders, Inl UnboundLocalError))
         else send_request e hist meth path body ctype accept reqheaders None SessionConn (s_key self))"

subsection \<open>\<open>doRequestFollowRedirect\<close>\<close>

text \<open>
  \<open>headers["location"]\<close>: \<open>KeyError\<close> without the header. Only the key \<open>_headerlist\<close>
  holds a list, so the last case is never taken for another key.
\<close>

definition header_str :: "headers \<Rightarrow> string \<Rightarrow> py_error + string" where
  "header_str hdrs k =
     (case hdrs k of None \<Rightarrow> Inl (KeyError k) | Some (HStr s) \<Rightarrow> Inr s | Some (HList l) \<Rightarrow> Inl TypeError)"

text \<open>
  \<^verbatim>\<open>
  (status, reason, headers, data) = self.doRequest(uripath,
      method=method, accept=accept, body=body, ctype=ctype, reqheaders=reqheaders, exthost=exthost)
  if status in [302,303,307]:
      uripath = headers["location"]
      (status, reason, headers, data) = self.doRequest(uripath,
          method=method, accept=accept, body=body, ctype=ctype, reqheaders=reqheaders, exthost=exthost)
  if status in [302,307]:
      # Allow second temporary redirect
      uripath = headers["location"]
      (status, reason, headers, data) = self.doRequest(uripath,
          method=method, body=body, ctype=ctype, reqheaders=reqheaders, exthost=exthost)
  return (status, reason, headers, uripath, data)
  \<close>
  The third call passes no \<open>accept\<close>. All three calls pass the same dictionary object
  \<open>reqheaders\<close>, so each call sees what the one before stored in it.
\<close>

definition doRequestFollowRedirect ::
  "env \<Rightarrow> session \<Rightarrow> event list \<Rightarrow> string \<Rightarrow> string \<Rightarrow> string option \<Rightarrow> string option \<Rightarrow>
   string option \<Rightarrow> pydict option \<Rightarrow> bool \<Rightarrow>
   event list \<times> pydict option \<times> (py_error + int \<times> string \<times> headers \<times> string \<times> string option)"
where
  "doRequestFollowRedirect e self hist uripath meth body ctype accept reqheaders exthost =
     (case doRequest e self hist uripath meth body ctype accept reqheaders exthost of
        (hist1, rh1, Inl err) \<Rightarrow> (hist1, rh1, Inl err)
      | (hist1, rh1, Inr (status1, reason1, headers1, data1)) \<Rightarrow>
          (case (if status1 \<in> set [302, 303, 307] then
                   (case header_str headers1 ''location'' of
                      Inl err \<Rightarrow> (hist1, rh1, Inl err)
                    | Inr loc \<Rightarrow>
                        (case doRequest e self hist1 loc meth body ctype accept rh1 exthost of
                           (h, r, Inl err) \<Rightarrow> (h, r, Inl err)
                         | (h, r, Inr resp) \<Rightarrow> (h, r, Inr (resp, loc))))
                 else (hist1, rh1, Inr ((status1, reason1, headers1, data1), uripath))) of
             (hist2, rh2, Inl err) \<Rightarrow> (hist2, rh2, Inl err)
           | (hist2, rh2, Inr ((status2, reason2, headers2, data2), uripath2)) \<Rightarrow>
               if status2 \<in> set [302, 307] then
                 (case header_str headers2 ''location'' of
                    Inl err \<Rightarrow> (hist2, rh2, Inl err)
                  | Inr loc \<Rightarrow>
                      (case doRequest e self hist2 loc meth body ctype None rh2 exthost of
                         (h, r, Inl err) \<Rightarrow> (h, r, Inl err)
                       | (h, r, Inr (status3, reason3, headers3, data3)) \<Rightarrow>
                           (h, r, Inr (status3, reason3, headers3, loc, data3))))
               else (hist2, rh2, Inr (status2, reason2, headers2, uripath2, data2))))"

subsection \<open>\<open>HTTP_Session.parseLinks\<close>\<close>

text \<open>
  \<^verbatim>\<open>return parseLinks(headers["_headerlist"])\<close>. Under the key there is a list by
  construction; were it a string, the loop over its characters would fail to unpack the
  first one.
\<close>

definition session_parseLinks :: "headers \<Rightarrow> py_error + links" where
  "session_parseLinks hdrs =
     (case hdrs ''_headerlist'' of
        None \<Rightarrow> Inl (KeyError ''_headerlist'')
      | Some (HList headerlist) \<Rightarrow> parseLinks headerlist
      | Some (HStr s) \<Rightarrow> if s = [] then Inr Map.empty else Inl ValueError)"

text \<open>
  The outcome of the request by which a call of \<open>doRequest\<close> extended the history \<open>hist\<close>
  to \<open>hist'\<close>: the request is the entry after \<open>hist\<close>.
\<close>

definition outcome_of :: "env \<Rightarrow> event list \<Rightarrow> event list \<Rightarrow> outcome" where
  "outcome_of e hist hist' = server e (take (Suc (length hist)) hist')"

subsection \<open>\<open>doRequestRDF\<close>\<close>

definition RDF_CONTENT_TYPES :: "(string \<times> string) list" where
  "RDF_CONTENT_TYPES =
     [(''application/rdf+xml'', ''xml''),
      (''text/turtle'', ''n3''),
      (''text/n3'', ''n3''),
      (''text/nt'', ''nt''),
      (''application/json'', ''jsonld''),
      (''application/xhtml'', ''rdfa'')]"

definition ACCEPT_RDF_CONTENT_TYPES :: string where
  "ACCEPT_RDF_CONTENT_TYPES = ''application/rdf+xml, text/turtle''"

definition w3id_prefix :: string where
  "w3id_prefix = ''w3id.org/ro-id''"

definition w3id_dev_prefix :: string where
  "w3id_dev_prefix = ''w3id.org/ro-id-dev''"

definition index_endpoint :: string where
  "index_endpoint = ''https://api.rohub.org/api/search/manifests/?identifier=''"

definition index_dev_endpoint :: string where
  "index_dev_endpoint =
     ''https://rohub2020-rohub.apps.paas-dev.psnc.pl/api/search/manifests/?identifier=''"

text \<open>\<^verbatim>\<open>if w3id_dev_prefix in str(uripath): ... index_dev_endpoint ... else: ... index_endpoint\<close>\<close>

definition endpoint_for :: "string \<Rightarrow> string" where
  "endpoint_for uripath =
     (if contains uripath w3id_dev_prefix then index_dev_endpoint else index_endpoint)"

text \<open>
  The rewriting of a \<open>w3id.org/ro-id\<close> URI into a query of the search index, lines 347 to
  386 of the source: the branches on the suffix \<open>.ttl\<close> (\<open>uripath[-4:]\<close>) and on the words
  \<open>evo_info\<close>, \<open>enrichment\<close>, \<open>folders\<close> and \<open>manifest\<close>, the first of which asks
  \<open>requests\<close> for the URL the URI redirects to.
\<close>

definition w3id_rewrite :: "env \<Rightarrow> event list \<Rightarrow> string \<Rightarrow> event list \<times> (py_error + string)" where
  "w3id_rewrite e hist uripath =
     (if drop (length uripath - 4) uripath = ''.ttl'' then
        (if contains uripath ''evo_info'' \<or> contains uripath ''enrichment'' \<or> contains uripath ''folders''
         then
           (let hist1 = hist @ [RequestsGet uripath] in
            case requests_get e hist1 of
              Inl err \<Rightarrow> (hist1, Inl err)
            | Inr r \<Rightarrow>
                (case split_after (r_url r)
                        (if contains uripath ''folders'' then ''folders/'' else ''annotations/'') of
                   Inl err \<Rightarrow> (hist1, Inl err)
                 | Inr annotation \<Rightarrow>
                     (hist1, Inr (endpoint_for uripath @ split_before annotation ''/download/''))))
         else if contains uripath ''manifest'' then
           (case split_after uripath
                   ((if contains uripath w3id_dev_prefix then w3id_dev_prefix else w3id_prefix) @ ''/'') of
              Inl err \<Rightarrow> (hist, Inl err)
            | Inr annotation \<Rightarrow>
                (hist, Inr (endpoint_for uripath @ split_before annotation ''/.ro/manifest.ttl'')))
         else
           (case split_after uripath ''annotations/'' of
              Inl err \<Rightarrow> (hist, Inl err)
            | Inr annotation \<Rightarrow> (hist, Inr (endpoint_for uripath @ split_before annotation ''.ttl''))))
      else
        (let uripath1 = (if uripath \<noteq> [] \<and> last uripath = CHR ''/'' then butlast uripath else uripath) in
         case split_after uripath1
                (if contains uripath1 w3id_dev_prefix then ''ro-id-dev/'' else ''ro-id/'') of
           Inl err \<Rightarrow> (hist, Inl err)
         | Inr ro_id \<Rightarrow> (hist, Inr (endpoint_for uripath1 @ ro_id))))"

text \<open>
  The last component of the result of \<open>doRequestRDF\<close> is the body as received (a string or
  \<open>None\<close>) or a graph.
\<close>

datatype rdf_body = Body "string option" | Graph graph

type_synonym rdf_response = "int \<times> string \<times> headers \<times> rdf_body"

text \<open>
  \<^verbatim>\<open>
  if index_endpoint in str(uripath) or index_dev_endpoint in str(uripath):
      bodyformat = "turtle"
  else:
      bodyformat = RDF_CONTENT_TYPES[content_type]
  \<close>
\<close>

definition bodyformat_of :: "string \<Rightarrow> string \<Rightarrow> string" where
  "bodyformat_of uripath fmt =
     (if contains uripath index_endpoint \<or> contains uripath index_dev_endpoint then ''turtle'' else fmt)"

text \<open>
  The part of \<open>doRequestRDF\<close> after the request, from \<open>if status >= 200 and status < 300\<close>:
  \<^verbatim>\<open>
  content_type = headers["content-type"].split(";",1)[0].strip().lower()
  if content_type in RDF_CONTENT_TYPES:
      rdfgraph   = graph if graph != None else rdflib.graph.Graph()
      (bodyformat as above)
      try:
          rdfgraph.parse(data=data, format=bodyformat)
          data = rdfgraph
      except Exception, e:
          status   = 902
          reason   = "RDF (%s) parse failure"%bodyformat
  else:
      status   = 901
      reason   = "Non-RDF content-type returned"
  \<close>
  \<open>headers["content-type"]\<close> raises \<open>KeyError\<close> when the response has no such header. A
  body of \<open>None\<close> does not occur with a status from 200 to 299; \<open>parse\<close> would raise on it.
\<close>

definition rdf_success ::
  "env \<Rightarrow> event list \<Rightarrow> string \<Rightarrow> graph option \<Rightarrow> int \<Rightarrow> string \<Rightarrow> headers \<Rightarrow> string option \<Rightarrow>
   event list \<times> (py_error + rdf_response)"
where
  "rdf_success e hist uripath graph status reason hdrs data =
     (if status \<ge> 200 \<and> status < 300 then
        (case hdrs ''content-type'' of
           None \<Rightarrow> (hist, Inl (KeyError ''content-type''))
         | Some (HList l) \<Rightarrow> (hist, Inl (AttributeError ''split''))
         | Some (HStr ct) \<Rightarrow>
             (let content_type = lower (strip (split_before ct '';'')) in
              case map_of RDF_CONTENT_TYPES content_type of
                None \<Rightarrow> (hist, Inr (901, ''Non-RDF content-type returned'', hdrs, Body data))
              | Some fmt \<Rightarrow>
                  (let rdfgraph = (case graph of Some g \<Rightarrow> g | None \<Rightarrow> []);
                       bodyformat = bodyformat_of uripath fmt;
                       failure = Inr (902, ''RDF ('' @ bodyformat @ '') parse failure'', hdrs, Body data)
                   in case data of
                        None \<Rightarrow> (hist, failure)
                      | Some d \<Rightarrow>
                          (case rdf_parse e rdfgraph d bodyformat of
                             Inl err \<Rightarrow> (hist @ [RdfParse d bodyformat], failure)
                           | Inr g \<Rightarrow>
                               (hist @ [RdfParse d bodyformat],
                                Inr (status, reason, hdrs, Graph g))))))
      else (hist, Inr (status, reason, hdrs, Body data)))"

text \<open>
  The headers of a \<open>requests\<close> response are a dictionary that ignores the case of its keys;
  the model keeps them under their lower-cased names.
\<close>

definition requests_headers :: "(string \<times> string) list \<Rightarrow> headers" where
  "requests_headers hdrs = map_of (rev (map (\<lambda>(h, v). (lower h, HStr v)) hdrs))"

text \<open>
  \<open>doRequestRDF\<close>: a URI that contains \<open>w3id.org/ro-id\<close> is rewritten and fetched with
  \<open>requests\<close>, and the body is replaced by the text the search index holds (the empty
  string when it holds none); every other URI goes through \<open>doRequest\<close> with the \<open>accept\<close>
  header of the RDF content types.
\<close>

definition doRequestRDF ::
  "env \<Rightarrow> session \<Rightarrow> event list \<Rightarrow> string \<Rightarrow> string \<Rightarrow> string option \<Rightarrow> string option \<Rightarrow>
   pydict option \<Rightarrow> bool \<Rightarrow> graph option \<Rightarrow>
   event list \<times> pydict option \<times> (py_error + rdf_response)"
where
  "doRequestRDF e self hist uripath meth body ctype reqheaders exthost graph =
     (if contains uripath w3id_prefix then
        (case w3id_rewrite e hist uripath of
           (hist1, Inl err) \<Rightarrow> (hist1, reqheaders, Inl err)
         | (hist1, Inr uripath1) \<Rightarrow>
             (let hist2 = hist1 @ [RequestsGet uripath1] in
              case requests_get e hist2 of
                Inl err \<Rightarrow> (hist2, reqheaders, Inl err)
              | Inr response \<Rightarrow>
                  (case json_results_text e (r_content response) of
                     Inl err \<Rightarrow> (hist2, reqheaders, Inl err)
                   | Inr text \<Rightarrow>
                       (case rdf_success e hist2 uripath1 graph (r_status_code response)
                               (r_reason response) (requests_headers (r_headers response))
                               (Some (case text of None \<Rightarrow> [] | Some t \<Rightarrow> t)) of
                          (hist3, res) \<Rightarrow> (hist3, reqheaders, res)))))
      else
        (case doRequest e self hist uripath meth body ctype (Some ACCEPT_RDF_CONTENT_TYPES)
                reqheaders exthost of
           (hist1, rh1, Inl err) \<Rightarrow> (hist1, rh1, Inl err)
         | (hist1, rh1, Inr (status, reason, hdrs, data)) \<Rightarrow>
             (case rdf_success e hist1 uripath graph status reason hdrs data of
                (hist2, res) \<Rightarrow> (hist2, rh1, res))))"

section \<open>rocommand/ro\_remote\_metadata.py: the class \<open>ro_remote_metadata\<close>\<close>

text \<open>
  \<^verbatim>\<open>def isInternalResource(self, rouri, resuri): return rouri.startswith(resuri)\<close>
  The receiver is \<open>rouri\<close> and the argument is \<open>resuri\<close>, as in the source.
\<close>

definition isInternalResource :: "string \<Rightarrow> string \<Rightarrow> bool" where
  "isInternalResource rouri resuri = startswith rouri resuri"


definition RDF_type :: node where
  "RDF_type = URIRef ''http://www.w3.org/1999/02/22-rdf-syntax-ns#type''"

definition RO_ResearchObject :: node where
  "RO_ResearchObject = URIRef ''http://purl.org/wf4ever/ro#ResearchObject''"

definition RO_annotatesAggregatedResource :: node where
  "RO_annotatesAggregatedResource = URIRef ''http://purl.org/wf4ever/ro#annotatesAggregatedResource''"

definition AO_body :: node where
  "AO_body = URIRef ''http://purl.org/ao/body''"

text \<open>The fields of the object that the two loaders read and write.\<close>

record ro_remote_metadata =
  rouri :: node
  manifesturi :: string
  dummyfortest :: bool
  manifestgraph :: "graph option"
  roannotations :: "graph option"

text \<open>
  \<open>if self.manifestgraph:\<close> tests the truth value of the field. It is \<open>None\<close> or an
  \<open>rdflib.Graph\<close>; a graph defines \<open>__len__\<close> (its number of triples), so Python takes a
  graph without triples for false.
\<close>

definition graph_truth :: "graph option \<Rightarrow> bool" where
  "graph_truth g = (case g of None \<Rightarrow> False | Some triples \<Rightarrow> triples \<noteq> [])"

text \<open>
  \<^verbatim>\<open>
  def _loadManifest(self):
      if self.manifestgraph: return self.manifestgraph
      self.manifestgraph = rdflib.Graph()
      if self.dummyfortest:
          self.manifestgraph.add( (self.rouri, RDF.type, RO.ResearchObject) )
      else:
          self.manifestgraph.parse(self.manifesturi)
      return self.manifestgraph
  \<close>
  \<open>fetch\<close> stands for \<open>Graph.parse(uri)\<close> on a new graph: given the URIs fetched so far, the
  last being the one asked for, it returns the triples read or raises. The second
  component of the result is the list of the URIs fetched.
\<close>

definition loadManifest ::
  "(string list \<Rightarrow> py_error + graph) \<Rightarrow> ro_remote_metadata \<Rightarrow> string list \<Rightarrow>
   ro_remote_metadata \<times> string list \<times> (py_error + graph)"
where
  "loadManifest fetch self fetched =
     (if graph_truth (manifestgraph self) then
        (self, fetched, Inr (case manifestgraph self of Some g \<Rightarrow> g | None \<Rightarrow> []))
      else if dummyfortest self then
        (self\<lparr>manifestgraph := Some [(rouri self, RDF_type, RO_ResearchObject)]\<rparr>, fetched,
         Inr [(rouri self, RDF_type, RO_ResearchObject)])
      else
        (case fetch (fetched @ [manifesturi self]) of
           Inl err \<Rightarrow> (self\<lparr>manifestgraph := Some []\<rparr>, fetched @ [manifesturi self], Inl err)
         | Inr g \<Rightarrow> (self\<lparr>manifestgraph := Some g\<rparr>, fetched @ [manifesturi self], Inr g)))"

text \<open>\<open>Graph.subject_objects(predicate)\<close> and \<open>Graph.value(subject, predicate)\<close>.\<close>

definition subject_objects :: "graph \<Rightarrow> node \<Rightarrow> (node \<times> node) list" where
  "subject_objects g predicate = map (\<lambda>(s, p, ob). (s, ob)) (filter (\<lambda>(s, p, ob). p = predicate) g)"

definition graph_value :: "graph \<Rightarrow> node \<Rightarrow> node \<Rightarrow> node option" where
  "graph_value g subject predicate =
     (case filter (\<lambda>(s, p, ob). s = subject \<and> p = predicate) g of
        [] \<Rightarrow> None
      | (s, p, ob) # rest \<Rightarrow> Some ob)"

text \<open>
  \<^verbatim>\<open>
  for (ann_node, subject) in self.manifestgraph.subject_objects(predicate=RO.annotatesAggregatedResource):
      ann_uri   = self.manifestgraph.value(subject=ann_node, predicate=AO.body)
      self._readAnnotationBody(ann_uri, self.roannotations)
  \<close>
  The class \<open>ro_remote_metadata(object)\<close> defines no \<open>_readAnnotationBody\<close>: the only text
  of that method in the file is inside a comment (lines 414 to 437). The attribute lookup
  of the first iteration therefore raises \<open>AttributeError\<close>.
\<close>

fun annotations_loop :: "graph \<Rightarrow> (node \<times> node) list \<Rightarrow> graph \<Rightarrow> py_error + graph" where
  "annotations_loop manifest [] anns = Inr anns"
| "annotations_loop manifest ((ann_node, subject) # rest) anns =
     (case graph_value manifest ann_node AO_body of
        ann_uri \<Rightarrow> Inl (AttributeError ''_readAnnotationBody''))"

text \<open>
  \<^verbatim>\<open>
  def _loadAnnotations(self):
      if self.roannotations: return self.roannotations
      self._loadManifest()
      self.roannotations = rdflib.Graph()
      (the loop)
      return self.roannotations
  \<close>
\<close>

definition loadAnnotations ::
  "(string list \<Rightarrow> py_error + graph) \<Rightarrow> ro_remote_metadata \<Rightarrow> string list \<Rightarrow>
   ro_remote_metadata \<times> string list \<times> (py_error + graph)"
where
  "loadAnnotations fetch self fetched =
     (if graph_truth (roannotations self) then
        (self, fetched, Inr (case roannotations self of Some g \<Rightarrow> g | None \<Rightarrow> []))
      else
        (case loadManifest fetch self fetched of
           (self1, fetched1, Inl err) \<Rightarrow> (self1, fetched1, Inl err)
         | (self1, fetched1, Inr manifest) \<Rightarrow>
             (self1\<lparr>roannotations := Some []\<rparr>, fetched1,
              annotations_loop manifest (subject_objects manifest RO_annotatesAggregatedResource) [])))"

section \<open>Environments for the concrete runs\<close>

text \<open>
  A session on \<open>http://example.org/ro/\<close> with the access key \<open>secret\<close>, and a resolver that
  knows one foreign URI.
\<close>

definition ex_session :: session where
  "ex_session = \<lparr>s_baseuri = ''http://example.org/ro/'', s_key = Some ''secret'',
                  s_scheme = ''http'', s_host = ''example.org''\<rparr>"

definition ex_resolve :: "string \<Rightarrow> string \<Rightarrow> uriparts" where
  "ex_resolve base u =
     (if u = ''http://other.org/b''
      then \<lparr>uri_scheme = ''http'', uri_netloc = ''other.org'', uri_path = ''/b'', uri_query = []\<rparr>
      else \<lparr>uri_scheme = ''http'', uri_netloc = ''example.org'', uri_path = u, uri_query = []\<rparr>)"

text \<open>
  A parser that reads the body \<open>ok\<close> as one triple and fails on everything else. In every
  environment built by \<open>ex_env\<close>, \<open>requests.get\<close> is answered with a 404 whose body is the
  JSON object \<open>{}\<close>, in which \<open>json\<close> finds no \<open>results\<close>.
\<close>

definition ex_parse :: "graph \<Rightarrow> string \<Rightarrow> string \<Rightarrow> py_error + graph" where
  "ex_parse g d fmt =
     (if d = ''ok'' then Inr (g @ [(URIRef ''s'', URIRef ''p'', Literal ''o'')]) else Inl ValueError)"

definition ex_env :: "(event list \<Rightarrow> outcome) \<Rightarrow> env" where
  "ex_env srv = \<lparr>resolve = ex_resolve, server = srv,
                 requests_get = (\<lambda>hist. Inr \<lparr>r_url = [], r_status_code = 404, r_reason = ''Not Found'',
                                              r_headers = [], r_content = ''{}''\<rparr>),
                 json_results_text = (\<lambda>d. Inr None),
                 rdf_parse = ex_parse\<rparr>"

text \<open>A server that cannot be reached, and one whose responses cannot be read.\<close>

definition refusing :: env where
  "refusing = ex_env (\<lambda>hist. RequestRaises ''Connection refused'')"

definition broken :: env where
  "broken = ex_env (\<lambda>hist. ResponseRaises ''BadStatusLine'')"

text \<open>The path of the last request of a history.\<close>

definition last_path :: "event list \<Rightarrow> string" where
  "last_path hist = (case last hist of Request c m p b h \<Rightarrow> p | _ \<Rightarrow> [])"

text \<open>A server that redirects \<open>/a\<close> to \<open>/b\<close> and \<open>/b\<close> to \<open>/c\<close>.\<close>

definition redirecting :: env where
  "redirecting = ex_env (\<lambda>hist.
     if last_path hist = ''/a'' then Response 302 ''Found'' [(''Location'', ''/b'')] []
     else if last_path hist = ''/b'' then Response 307 ''Temporary Redirect'' [(''Location'', ''/c'')] []
     else Response 200 ''OK'' [] ''done'')"

text \<open>A server that redirects \<open>/a\<close> to another host.\<close>

definition leaving :: env where
  "leaving = ex_env (\<lambda>hist.
     if last_path hist = ''/a'' then Response 302 ''Found'' [(''Location'', ''http://other.org/b'')] []
     else Response 200 ''OK'' [] ''done'')"

text \<open>A server that answers every request with the given status, content type and body.\<close>

definition answering :: "int \<Rightarrow> string \<Rightarrow> string \<Rightarrow> env" where
  "answering st ct d = ex_env (\<lambda>hist. Response st ''R'' [(''Content-Type'', ct)] d)"

text \<open>A server that answers every request with 204 and no headers.\<close>

definition no_content :: env where
  "no_content = ex_env (\<lambda>hist. Response 204 ''No Content'' [] [])"

text \<open>A manifest source that always reads an empty document.\<close>

definition empty_manifest :: "string list \<Rightarrow> py_error + graph" where
  "empty_manifest fetched = Inr []"

definition ex_ro :: ro_remote_metadata where
  "ex_ro = \<lparr>rouri = URIRef ''http://example.org/ro/'',
            manifesturi = ''http://example.org/ro/.ro/manifest.rdf'',
            dummyfortest = False, manifestgraph = None, roannotations = None\<rparr>"

text \<open>A manifest with one annotation of the resource \<open>data\<close>, its body at \<open>ann1\<close>.\<close>

definition annotated_manifest :: graph where
  "annotated_manifest =
     [(URIRef ''http://example.org/ro/'', RDF_type, RO_ResearchObject),
      (BNode ''a1'', RO_annotatesAggregatedResource, URIRef ''http://example.org/ro/data''),
      (BNode ''a1'', AO_body, URIRef ''http://example.org/ro/ann1'')]"

definition annotated_source :: "string list \<Rightarrow> py_error + graph" where
  "annotated_source fetched = Inr annotated_manifest"

section \<open>The tokenizer meets its specification\<close>

lemma length_unquoted_seps: "length (unquoted_seps sep pairs st cs) = length cs"
  by (induction sep pairs st cs rule: unquoted_seps.induct) (auto split: option.splits)

lemma length_cut: "length ms = length xs \<Longrightarrow> length (cut_at seg ms xs) = Suc (count_marks ms)"
  by (induction seg ms xs rule: cut_at.induct) (auto simp: count_marks_def)

lemma slice_append: "a \<le> b \<Longrightarrow> b \<le> c \<Longrightarrow> slice t a b @ slice t b c = slice t a c"
proof -
  assume ab: "a \<le> b" and bc: "b \<le> c"
  have "take c t = take b t @ drop b (take c t)"
    using bc by (metis append_take_drop_id min.absorb1 take_take)
  then have "drop a (take c t) = drop a (take b t) @ drop (a - length (take b t)) (drop b (take c t))"
    by (metis drop_append)
  moreover have "drop (a - length (take b t)) (drop b (take c t)) = drop b (take c t)"
  proof (cases "b \<le> length t")
    case True
    then show ?thesis using ab by simp
  next
    case False
    then show ?thesis by simp
  qed
  ultimately show ?thesis by (simp add: slice_def)
qed

lemma slice_one: "c < length t \<Longrightarrow> slice t c (Suc c) = [t ! c]"
  by (simp add: slice_def take_Suc_conv_app_nth)

lemma slice_snoc: "b \<le> c \<Longrightarrow> c < length t \<Longrightarrow> slice t b (Suc c) = slice t b c @ [t ! c]"
  using slice_append [of b c "Suc c" t] slice_one [of c t] by simp

lemma slice_same: "slice t c c = []"
  by (simp add: slice_def)



lemma after_span_stop: "\<not> (c < length t \<and> t ! c \<noteq> eq) \<Longrightarrow>
    after_span t eq c = (if c < length t then c + 1 else c)"
  unfolding after_span_def by (subst skipQuoted.simps) simp

lemma after_span_step: "c < length t \<Longrightarrow> t ! c \<noteq> eq \<Longrightarrow> t ! c \<noteq> backslash \<Longrightarrow>
    after_span t eq c = after_span t eq (Suc c)"
  unfolding after_span_def by (subst skipQuoted.simps) simp

lemma after_span_escape: "c < length t \<Longrightarrow> t ! c \<noteq> eq \<Longrightarrow> t ! c = backslash \<Longrightarrow>
    after_span t eq c = after_span t eq (Suc (Suc c))"
  unfolding after_span_def by (subst skipQuoted.simps) simp

lemma after_span_ge: "c \<le> after_span t eq c"
  using skipQuoted_ge [of c t eq] by (simp add: after_span_def Let_def)

lemma skip_span:
  "cut_at seg (unquoted_seps sep pairs (InSpan eq) (drop c t)) (drop c t) =
     cut_at (seg @ slice t c (after_span t eq c))
       (unquoted_seps sep pairs Outside (drop (after_span t eq c) t)) (drop (after_span t eq c) t)"
proof (induction t eq c arbitrary: seg rule: skipQuoted.induct)
  case (1 t eq c)
  show ?case
  proof (cases "c < length t")
    case False
    then have "after_span t eq c = c" using after_span_stop [of c t eq] by simp
    with False show ?thesis by (simp add: slice_same)
  next
    case lt: True
    then have d: "drop c t = t ! c # drop (Suc c) t" by (simp add: Cons_nth_drop_Suc)
    show ?thesis
    proof (cases "t ! c = eq")
      case True
      then have "after_span t eq c = Suc c" using after_span_stop [of c t eq] lt by simp
      then show ?thesis using d True lt by (simp add: slice_one)
    next
      case ne: False
      show ?thesis
      proof (cases "t ! c = backslash")
        case nb: False
        let ?a = "after_span t eq (Suc c)"
        have s: "after_span t eq c = ?a" using lt ne nb by (rule after_span_step)
        have ge: "Suc c \<le> ?a" by (rule after_span_ge)
        have ih: "cut_at (seg @ [t ! c]) (unquoted_seps sep pairs (InSpan eq) (drop (Suc c) t)) (drop (Suc c) t) =
           cut_at ((seg @ [t ! c]) @ slice t (Suc c) ?a) (unquoted_seps sep pairs Outside (drop ?a t)) (drop ?a t)"
          using 1 [of "seg @ [t ! c]"] lt ne nb by simp
        have sl: "[t ! c] @ slice t (Suc c) ?a = slice t c ?a"
          using slice_append [of c "Suc c" ?a t] slice_one [OF lt] ge by simp
        have "cut_at seg (unquoted_seps sep pairs (InSpan eq) (drop c t)) (drop c t) =
              cut_at (seg @ [t ! c]) (unquoted_seps sep pairs (InSpan eq) (drop (Suc c) t)) (drop (Suc c) t)"
          unfolding d using ne nb by simp
        also have "\<dots> = cut_at (seg @ slice t c ?a) (unquoted_seps sep pairs Outside (drop ?a t)) (drop ?a t)"
          unfolding ih using sl by (metis append_assoc)
        finally show ?thesis unfolding s .
      next
        case b: True
        let ?a = "after_span t eq (Suc (Suc c))"
        have s: "after_span t eq c = ?a" using lt ne b by (rule after_span_escape)
        have ge: "Suc (Suc c) \<le> ?a" by (rule after_span_ge)
        show ?thesis
        proof (cases "Suc c < length t")
          case True
          then have d2: "drop (Suc c) t = t ! Suc c # drop (Suc (Suc c)) t"
            by (simp add: Cons_nth_drop_Suc)
          have ih: "cut_at (seg @ [t ! c, t ! Suc c]) (unquoted_seps sep pairs (InSpan eq) (drop (Suc (Suc c)) t)) (drop (Suc (Suc c)) t) =
             cut_at ((seg @ [t ! c, t ! Suc c]) @ slice t (Suc (Suc c)) ?a) (unquoted_seps sep pairs Outside (drop ?a t)) (drop ?a t)"
            using 1 [of "seg @ [t ! c, t ! Suc c]"] lt ne b by simp
          have two: "slice t c (Suc (Suc c)) = [t ! c, t ! Suc c]"
            using slice_snoc [of c "Suc c" t] slice_one [OF lt] True by simp
          have sl: "[t ! c, t ! Suc c] @ slice t (Suc (Suc c)) ?a = slice t c ?a"
            using slice_append [of c "Suc (Suc c)" ?a t] two ge by simp
          have "cut_at seg (unquoted_seps sep pairs (InSpan eq) (drop c t)) (drop c t) =
                cut_at (seg @ [t ! c, t ! Suc c]) (unquoted_seps sep pairs (InSpan eq) (drop (Suc (Suc c)) t)) (drop (Suc (Suc c)) t)"
            unfolding d d2 using ne b by simp
          also have "\<dots> = cut_at (seg @ slice t c ?a) (unquoted_seps sep pairs Outside (drop ?a t)) (drop ?a t)"
            unfolding ih using sl by (metis append_assoc)
          finally show ?thesis unfolding s .
        next
          case False
          then have e: "drop (Suc c) t = []" by simp
          have k: "?a = Suc (Suc c)"
            using False after_span_stop [of "Suc (Suc c)" t eq] by simp
          have e2: "drop (Suc (Suc c)) t = []" using False by simp
          have one: "slice t c (Suc (Suc c)) = [t ! c]"
            using False d e by (simp add: slice_def)
          have "cut_at seg (unquoted_seps sep pairs (InSpan eq) (drop c t)) (drop c t) = [seg @ [t ! c]]"
            unfolding d e using ne b by simp
          moreover have "cut_at (seg @ slice t c ?a) (unquoted_seps sep pairs Outside (drop ?a t)) (drop ?a t) = [seg @ [t ! c]]"
            unfolding k e2 one by simp
          ultimately show ?thesis unfolding s by simp
        qed
      qed
    qed
  qed
qed



lemma map_of_zip_index:
  "c \<in> set lq \<Longrightarrow> length lq \<le> length rq \<Longrightarrow> map_of (zip lq rq) c = Some (rq ! str_index lq c)"
proof (induction lq arbitrary: rq)
  case Nil
  then show ?case by simp
next
  case (Cons a lq)
  then obtain b rq' where rq: "rq = b # rq'" by (cases rq) auto
  with Cons show ?case by auto
qed

lemma str_index_less: "c \<in> set lq \<Longrightarrow> str_index lq c < length lq"
  by (induction lq) auto

lemma map_of_zip_none: "c \<notin> set lq \<Longrightarrow> map_of (zip lq rq) c = None"
  by (meson map_of_SomeD not_Some_eq set_zip_leftD)

lemma splitLoop_quote:
  "cursor < length t \<Longrightarrow> t ! cursor \<in> set lq \<Longrightarrow> str_index lq (t ! cursor) < length rq \<Longrightarrow>
   splitLoop t sep lq rq result cursor begseg =
     splitLoop t sep lq rq result (after_span t (rq ! str_index lq (t ! cursor)) (cursor + 1)) begseg"
  by (subst splitLoop.simps) (simp add: Let_def after_span_def)

lemma splitLoop_sep:
  "cursor < length t \<Longrightarrow> t ! cursor \<notin> set lq \<Longrightarrow> t ! cursor \<in> set sep \<Longrightarrow>
   splitLoop t sep lq rq result cursor begseg =
     splitLoop t sep lq rq (result @ [slice t begseg cursor]) (cursor + 1) (cursor + 1)"
  by (subst splitLoop.simps) simp

lemma splitLoop_other:
  "cursor < length t \<Longrightarrow> t ! cursor \<notin> set lq \<Longrightarrow> t ! cursor \<notin> set sep \<Longrightarrow>
   splitLoop t sep lq rq result cursor begseg = splitLoop t sep lq rq result (cursor + 1) begseg"
  by (subst splitLoop.simps) simp

lemma splitLoop_end:
  "\<not> cursor < length t \<Longrightarrow>
   splitLoop t sep lq rq result cursor begseg = Inr (result @ [slice t begseg cursor])"
  by (subst splitLoop.simps) simp

lemma splitLoop_cut:
  "length lq \<le> length rq \<Longrightarrow> begseg \<le> cursor \<Longrightarrow>
   splitLoop t sep lq rq result cursor begseg =
     Inr (result @ cut_at (slice t begseg cursor)
            (unquoted_seps sep (zip lq rq) Outside (drop cursor t)) (drop cursor t))"
proof (induction t sep lq rq result cursor begseg rule: splitLoop.induct)
  case (1 t sep lq rq result cursor begseg)
  let ?P = "zip lq rq"
  show ?case
  proof (cases "cursor < length t")
    case False
    then show ?thesis using splitLoop_end [OF False] by simp
  next
    case lt: True
    then have d: "drop cursor t = t ! cursor # drop (Suc cursor) t" by (simp add: Cons_nth_drop_Suc)
    show ?thesis
    proof (cases "t ! cursor \<in> set lq")
      case q: True
      have il: "str_index lq (t ! cursor) < length rq"
        using str_index_less [OF q] "1.prems" by simp
      define eq where "eq = rq ! str_index lq (t ! cursor)"
      define c2 where "c2 = after_span t eq (cursor + 1)"
      have c2': "c2 = (if skipQuoted t eq (cursor + 1) < length t
                       then skipQuoted t eq (cursor + 1) + 1 else skipQuoted t eq (cursor + 1))"
        by (simp add: c2_def after_span_def Let_def)
      have m: "map_of ?P (t ! cursor) = Some eq"
        using map_of_zip_index [OF q] "1.prems" eq_def by simp
      have ge: "Suc cursor \<le> c2" using after_span_ge [of "cursor + 1" t eq] c2_def by simp
      then have le: "begseg \<le> c2" using "1.prems" by simp
      have ih: "splitLoop t sep lq rq result c2 begseg =
        Inr (result @ cut_at (slice t begseg c2) (unquoted_seps sep ?P Outside (drop c2 t)) (drop c2 t))"
        using "1.IH"(1) [OF lt q il eq_def refl c2' "1.prems"(1) le] .
      have sp: "cut_at (slice t begseg cursor @ [t ! cursor])
           (unquoted_seps sep ?P (InSpan eq) (drop (Suc cursor) t)) (drop (Suc cursor) t) =
          cut_at ((slice t begseg cursor @ [t ! cursor]) @ slice t (Suc cursor) c2)
            (unquoted_seps sep ?P Outside (drop c2 t)) (drop c2 t)"
        using skip_span [of "slice t begseg cursor @ [t ! cursor]" sep ?P eq "Suc cursor" t]
        by (simp add: c2_def)
      have sl: "(slice t begseg cursor @ [t ! cursor]) @ slice t (Suc cursor) c2 = slice t begseg c2"
        using slice_snoc [of begseg cursor t] slice_append [of begseg "Suc cursor" c2 t] "1.prems" lt ge
        by simp
      have "splitLoop t sep lq rq result cursor begseg = splitLoop t sep lq rq result c2 begseg"
        using splitLoop_quote [OF lt q il] by (simp add: c2_def eq_def)
      moreover have "cut_at (slice t begseg cursor) (unquoted_seps sep ?P Outside (drop cursor t)) (drop cursor t)
          = cut_at (slice t begseg c2) (unquoted_seps sep ?P Outside (drop c2 t)) (drop c2 t)"
        unfolding d using m sp sl by simp
      ultimately show ?thesis using ih by simp
    next
      case nq: False
      have m: "map_of ?P (t ! cursor) = None" using nq by (rule map_of_zip_none)
      show ?thesis
      proof (cases "t ! cursor \<in> set sep")
        case s: True
        have ih: "splitLoop t sep lq rq (result @ [slice t begseg cursor]) (cursor + 1) (cursor + 1) =
          Inr ((result @ [slice t begseg cursor]) @ cut_at (slice t (cursor + 1) (cursor + 1))
            (unquoted_seps sep ?P Outside (drop (cursor + 1) t)) (drop (cursor + 1) t))"
          using "1.IH"(2) [OF lt nq s "1.prems"(1)] by simp
        have "cut_at (slice t begseg cursor) (unquoted_seps sep ?P Outside (drop cursor t)) (drop cursor t)
           = slice t begseg cursor # cut_at [] (unquoted_seps sep ?P Outside (drop (Suc cursor) t)) (drop (Suc cursor) t)"
          unfolding d using m s by simp
        then show ?thesis using splitLoop_sep [OF lt nq s] ih by (simp add: slice_same)
      next
        case ns: False
        have le: "begseg \<le> cursor + 1" using "1.prems" by simp
        have ih: "splitLoop t sep lq rq result (cursor + 1) begseg =
          Inr (result @ cut_at (slice t begseg (cursor + 1))
            (unquoted_seps sep ?P Outside (drop (cursor + 1) t)) (drop (cursor + 1) t))"
          using "1.IH"(3) [OF lt nq ns "1.prems"(1) le] .
        have "cut_at (slice t begseg cursor) (unquoted_seps sep ?P Outside (drop cursor t)) (drop cursor t)
           = cut_at (slice t begseg (Suc cursor)) (unquoted_seps sep ?P Outside (drop (Suc cursor) t)) (drop (Suc cursor) t)"
          unfolding d using m ns slice_snoc [of begseg cursor t] "1.prems" lt by simp
        then show ?thesis using splitLoop_other [OF lt nq ns] ih by simp
      qed
    qed
  qed
qed

section \<open>The link header parser meets its specification\<close>

subsection \<open>The two patterns\<close>

lemma star_space_then_lit:
  "\<not> isspace a \<Longrightarrow>
   re_match (Star Space # One (Lit a) # r) s g = re_match (One (Lit a) # r) (dropWhile isspace s) g"
proof (induction s)
  case Nil
  then show ?case by simp
next
  case (Cons c cs)
  show ?case
  proof (cases "isspace c")
    case True
    then have "c \<noteq> a" using Cons.prems by auto
    then show ?thesis using True Cons by (simp split: option.splits)
  next
    case False
    then show ?thesis by simp
  qed
qed

lemma star_space_last: "re_match [Star Space] s g = Some g"
  by (induction s) auto

lemma group_until_lit:
  "re_match (GroupStar (NotLit a) # One (Lit a) # r) s g =
     (if a \<in> set s then re_match r (tl (dropWhile (\<lambda>x. x \<noteq> a) s)) (g @ takeWhile (\<lambda>x. x \<noteq> a) s)
      else None)"
proof (induction s arbitrary: g)
  case Nil
  then show ?case by simp
next
  case (Cons c cs)
  show ?case
  proof (cases "c = a")
    case True
    then show ?thesis by simp
  next
    case False
    then show ?thesis using Cons [of "g @ [c]"] by (simp split: option.splits)
  qed
qed

lemma isspace_lt [simp]: "\<not> isspace (CHR ''<'')"
  by (simp add: isspace_def)

lemma isspace_r [simp]: "\<not> isspace (CHR ''r'')"
  by (simp add: isspace_def)

lemma isspace_eq [simp]: "\<not> isspace (CHR ''='')"
  by (simp add: isspace_def)

lemma isspace_dquote [simp]: "\<not> isspace dquote"
  by (simp add: isspace_def)

lemma isspace_newline [simp]: "isspace (CHR 0x0A)"
  by (simp add: isspace_def)

lemma link_re_target: "re_match link_re part [] = link_target part"
proof -
  have "re_match link_re part [] =
        re_match [One (Lit CHR ''<''), GroupStar (NotLit CHR ''>''), One (Lit CHR ''>''), Star Space]
          (dropWhile isspace part) []"
    unfolding link_re_def by (rule star_space_then_lit) simp
  also have "\<dots> = link_target part"
  proof -
    define d where "d = dropWhile isspace part"
    have "re_match [One (Lit CHR ''<''), GroupStar (NotLit CHR ''>''), One (Lit CHR ''>''), Star Space] d []
        = (case d of [] \<Rightarrow> None
           | c # r \<Rightarrow> if c = CHR ''<'' \<and> CHR ''>'' \<in> set r
                      then Some (takeWhile (\<lambda>x. x \<noteq> CHR ''>'') r) else None)"
      by (cases d) (simp_all add: group_until_lit star_space_last)
    then show ?thesis by (simp add: link_target_def d_def)
  qed
  finally show ?thesis .
qed

lemma star_space_eol: "re_match [Star Space, Eol] s g = (if list_all isspace s then Some g else None)"
proof (induction s)
  case Nil
  then show ?case by simp
next
  case (Cons c cs)
  show ?case
  proof (cases "isspace c")
    case True
    then show ?thesis using Cons by (auto split: option.splits)
  next
    case False
    then have "c # cs \<noteq> [CHR 0x0A]" by auto
    then show ?thesis using False by simp
  qed
qed

lemma opt_quote_tail:
  "re_match [Opt (Lit dquote), Star Space, Eol] s g = (if tail_ok s then Some g else None)"
proof (cases s)
  case Nil
  then show ?thesis by (simp add: tail_ok_def)
next
  case (Cons c cs)
  show ?thesis
  proof (cases "c = dquote")
    case True
    have "\<not> list_all isspace (dquote # cs)" by simp
    then show ?thesis using Cons True by (simp add: star_space_eol tail_ok_def split: option.splits)
  next
    case False
    then show ?thesis using Cons by (simp add: star_space_eol tail_ok_def)
  qed
qed

lemma lazy_unfold:
  "re_match lazy_re s g =
     (if tail_ok s then Some g
      else (case s of [] \<Rightarrow> None
            | c # cs \<Rightarrow> if c \<noteq> CHR 0x0A then re_match lazy_re cs (g @ [c]) else None))"
proof (cases s)
  case Nil
  then show ?thesis using opt_quote_tail [of "[]" g] by (simp add: tail_ok_def)
next
  case (Cons c cs)
  then show ?thesis using opt_quote_tail [of "c # cs" g] by (simp split: option.splits)
qed

lemma lazy_acc: "re_match lazy_re s g = map_option (\<lambda>x. g @ x) (re_match lazy_re s [])"
proof (induction s arbitrary: g)
  case Nil
  then show ?case by (subst (1 2) lazy_unfold) (simp add: tail_ok_def)
next
  case (Cons c cs)
  show ?case
    using Cons [of "g @ [c]"] Cons [of "[c]"]
    by (subst (1 2) lazy_unfold) (simp add: option.map_comp comp_def)
qed

lemma lazy_none: "re_match lazy_re s g = None \<Longrightarrow> re_match lazy_re s g' = None"
  using lazy_acc [of s g] lazy_acc [of s g'] by simp

lemma rstrip_Nil [simp]: "rstrip [] = []"
  by (simp add: rstrip_def)

lemma rstrip_Cons: "rstrip (c # cs) = (if list_all isspace (c # cs) then [] else c # rstrip cs)"
proof -
  have a: "dropWhile isspace (rev cs @ [c]) =
        (if list_all isspace cs then dropWhile isspace [c] else dropWhile isspace (rev cs) @ [c])"
    by (auto simp: dropWhile_append list_all_iff)
  show ?thesis
    unfolding rstrip_def using a by (auto simp: list_all_iff)
qed

lemma rstrip_empty_iff: "rstrip s = [] \<longleftrightarrow> list_all isspace s"
  by (induction s) (auto simp: rstrip_Cons)

lemma value_end_tail_ok: "tail_ok s \<Longrightarrow> value_end s = []"
proof -
  assume t: "tail_ok s"
  show ?thesis
  proof (cases "list_all isspace s")
    case True
    then have "rstrip s = []" by (simp add: rstrip_empty_iff)
    then show ?thesis by (simp add: value_end_def)
  next
    case False
    with t obtain r where s: "s = dquote # r" and r: "list_all isspace r"
      by (auto simp: tail_ok_def split: list.splits)
    have "rstrip s = [dquote]" using s r by (simp add: rstrip_Cons rstrip_empty_iff)
    then show ?thesis by (simp add: value_end_def)
  qed
qed

lemma value_end_Cons: "\<not> tail_ok (c # cs) \<Longrightarrow> value_end (c # cs) = c # value_end cs"
proof -
  assume n: "\<not> tail_ok (c # cs)"
  then have ns: "\<not> list_all isspace (c # cs)" by (simp add: tail_ok_def)
  then have r: "rstrip (c # cs) = c # rstrip cs" by (simp add: rstrip_Cons)
  show ?thesis
  proof (cases "rstrip cs = []")
    case True
    then have "list_all isspace cs" by (simp add: rstrip_empty_iff)
    then have "c \<noteq> dquote" using n by (auto simp: tail_ok_def)
    then show ?thesis using r True by (simp add: value_end_def)
  next
    case False
    then show ?thesis using r by (simp add: value_end_def Let_def)
  qed
qed

lemma lazy_value: "re_match lazy_re s [] = (if CHR 0x0A \<in> set (value_end s) then None else Some (value_end s))"
proof (induction s)
  case Nil
  then show ?case by (subst lazy_unfold) (simp add: tail_ok_def value_end_def)
next
  case (Cons c cs)
  show ?case
  proof (cases "tail_ok (c # cs)")
    case True
    then show ?thesis using value_end_tail_ok [OF True] by (subst lazy_unfold) simp
  next
    case False
    have "re_match lazy_re (c # cs) [] =
          (if c \<noteq> CHR 0x0A then map_option (\<lambda>x. c # x) (re_match lazy_re cs []) else None)"
      using False lazy_acc [of cs "[c]"] by (subst lazy_unfold) simp
    then show ?thesis using Cons value_end_Cons [OF False] by auto
  qed
qed


lemma three_lits:
  "re_match (One (Lit a) # One (Lit b) # One (Lit c) # r) s g =
     (if take 3 s = [a, b, c] then re_match r (drop 3 s) g else None)"
proof (cases s)
  case Nil
  then show ?thesis by simp
next
  case s1: (Cons x1 t1)
  show ?thesis
  proof (cases t1)
    case Nil
    then show ?thesis using s1 by simp
  next
    case s2: (Cons x2 t2)
    show ?thesis
    proof (cases t2)
      case Nil
      then show ?thesis using s1 s2 by simp
    next
      case (Cons x3 t3)
      then show ?thesis using s1 s2 by (simp add: numeral_3_eq_3)
    qed
  qed
qed

lemma quoted_m_Nil: "quoted_m [] g = lazy_m [] g"
  by (simp add: quoted_m_def lazy_m_def)

lemma quoted_m_Cons:
  "quoted_m (c # cs) g =
     (if c = dquote then (case lazy_m cs g of Some m \<Rightarrow> Some m | None \<Rightarrow> lazy_m (c # cs) g)
      else lazy_m (c # cs) g)"
  unfolding quoted_m_def lazy_m_def by (subst re_match.simps) simp

lemma spaced_m_Nil: "spaced_m [] g = quoted_m [] g"
  unfolding spaced_m_def quoted_m_def by (subst re_match.simps) simp

lemma spaced_m_Cons:
  "spaced_m (c # cs) g =
     (if isspace c then (case spaced_m cs g of Some m \<Rightarrow> Some m | None \<Rightarrow> quoted_m (c # cs) g)
      else quoted_m (c # cs) g)"
  unfolding spaced_m_def quoted_m_def by (subst re_match.simps) simp

lemma lazy_m_unfold:
  "lazy_m s g =
     (if tail_ok s then Some g
      else (case s of [] \<Rightarrow> None
            | c # cs \<Rightarrow> if c \<noteq> CHR 0x0A then lazy_m cs (g @ [c]) else None))"
  unfolding lazy_m_def by (rule lazy_unfold)

lemma lazy_m_tail_ok: "tail_ok s \<Longrightarrow> lazy_m s g = Some g"
  by (subst lazy_m_unfold) simp

lemma lazy_m_none: "lazy_m s g = None \<Longrightarrow> lazy_m s g' = None"
  unfolding lazy_m_def by (rule lazy_none)

lemma lazy_m_step: "\<not> tail_ok (c # cs) \<Longrightarrow> lazy_m cs (g @ [c]) = None \<Longrightarrow> lazy_m (c # cs) g = None"
  by (subst lazy_m_unfold) simp

lemma quoted_m_strip:
  "quoted_m u g = lazy_m (case u of [] \<Rightarrow> [] | c # r \<Rightarrow> if c = dquote then r else u) g"
proof (cases u)
  case Nil
  then show ?thesis by (simp add: quoted_m_Nil)
next
  case (Cons c r)
  show ?thesis
  proof (cases "c = dquote")
    case False
    then show ?thesis using Cons by (simp add: quoted_m_Cons)
  next
    case True
    show ?thesis
    proof (cases "lazy_m r g")
      case (Some m)
      then show ?thesis using Cons True by (simp add: quoted_m_Cons)
    next
      case None
      then have nt: "\<not> tail_ok r" using lazy_m_tail_ok [of r g] by auto
      then have "\<not> tail_ok (dquote # r)" by (auto simp: tail_ok_def)
      moreover have "lazy_m r (g @ [dquote]) = None" using None by (rule lazy_m_none)
      ultimately have "lazy_m (dquote # r) g = None" by (rule lazy_m_step)
      then show ?thesis using Cons True None by (simp add: quoted_m_Cons)
    qed
  qed
qed

lemma spaced_m_spaces: "list_all isspace s \<Longrightarrow> spaced_m s g = Some g"
proof (induction s)
  case Nil
  have "lazy_m [] g = Some g" by (rule lazy_m_tail_ok) (simp add: tail_ok_def)
  then show ?case by (simp add: spaced_m_Nil quoted_m_Nil)
next
  case (Cons c cs)
  then show ?case by (simp add: spaced_m_Cons)
qed

lemma spaced_m_none: "spaced_m s g = None \<Longrightarrow> lazy_m s g' = None"
proof (cases s)
  case Nil
  assume "spaced_m s g = None"
  then show ?thesis using Nil spaced_m_spaces [of "[]" g] by simp
next
  case (Cons d ds)
  assume n: "spaced_m s g = None"
  then have q: "quoted_m (d # ds) g = None"
    using Cons by (simp add: spaced_m_Cons split: if_splits option.splits)
  have "lazy_m (d # ds) g = None"
    using q by (simp add: quoted_m_Cons split: if_splits option.splits)
  then show ?thesis using Cons lazy_m_none by simp
qed

lemma spaced_m_skip: "spaced_m v g = quoted_m (dropWhile isspace v) g"
proof (induction v)
  case Nil
  then show ?case by (simp add: spaced_m_Nil)
next
  case (Cons c cs)
  show ?case
  proof (cases "isspace c")
    case False
    then show ?thesis by (simp add: spaced_m_Cons)
  next
    case sp: True
    then have nq: "c \<noteq> dquote" by auto
    show ?thesis
    proof (cases "spaced_m cs g")
      case (Some m)
      then show ?thesis using sp Cons by (simp add: spaced_m_Cons)
    next
      case None
      have ns: "\<not> list_all isspace cs" using None spaced_m_spaces [of cs g] by auto
      then have nt: "\<not> tail_ok (c # cs)" using nq by (simp add: tail_ok_def)
      have "lazy_m cs (g @ [c]) = None" using None by (rule spaced_m_none)
      with nt have "lazy_m (c # cs) g = None" by (rule lazy_m_step)
      then have "quoted_m (c # cs) g = None" using nq by (simp add: quoted_m_Cons)
      then show ?thesis using sp Cons None by (simp add: spaced_m_Cons)
    qed
  qed
qed

lemma rel_value_lazy: "spaced_m v [] = rel_value v"
proof -
  have "spaced_m v [] =
        lazy_m (case dropWhile isspace v of [] \<Rightarrow> [] | c # r \<Rightarrow> if c = dquote then r else dropWhile isspace v) []"
    unfolding spaced_m_skip by (rule quoted_m_strip)
  then show ?thesis
    unfolding lazy_m_def lazy_value by (simp add: rel_value_def value_end_def Let_def)
qed

lemma one_lit:
  "re_match (One (Lit a) # r) s g = (case s of [] \<Rightarrow> None | c # v \<Rightarrow> if c = a then re_match r v g else None)"
  by (cases s) simp_all

lemma rel_re_param: "re_match rel_re p [] = rel_param p"
proof -
  define d where "d = dropWhile isspace p"
  define e where "e = dropWhile isspace (drop 3 d)"
  let ?T = "Star Space # Opt (Lit dquote) # lazy_re"
  have "re_match rel_re p [] =
        re_match (One (Lit CHR ''r'') # One (Lit CHR ''e'') # One (Lit CHR ''l'') # Star Space #
                  One (Lit CHR ''='') # ?T) d []"
    unfolding rel_re_def d_def by (rule star_space_then_lit) simp
  also have "\<dots> = (if take 3 d = ''rel''
                     then re_match (Star Space # One (Lit CHR ''='') # ?T) (drop 3 d) []
                     else None)"
    by (rule three_lits)
  also have "re_match (Star Space # One (Lit CHR ''='') # ?T) (drop 3 d) [] =
             re_match (One (Lit CHR ''='') # ?T) e []"
    unfolding e_def by (rule star_space_then_lit) simp
  also have "re_match (One (Lit CHR ''='') # ?T) e [] =
             (case e of [] \<Rightarrow> None | c # v \<Rightarrow> if c = CHR ''='' then spaced_m v [] else None)"
    unfolding spaced_m_def by (rule one_lit)
  finally show ?thesis unfolding rel_value_lazy by (simp add: rel_param_def d_def e_def Let_def)
qed

subsection \<open>The loops\<close>


lemma cut_at_not_Nil: "cut_at seg ms xs \<noteq> []"
  by (induction seg ms xs rule: cut_at.induct) auto

lemma splitValues_tokens: "splitValues v sep default_lq default_rq = Inr (tokens sep v)"
proof -
  have "length default_lq \<le> length default_rq" by (simp add: default_lq_def default_rq_def)
  from splitLoop_cut [OF this, of 0 0 v sep "[]"]
  show ?thesis by (simp add: splitValues_def slice_same tokens_def default_lq_def default_rq_def)
qed

lemma linkparams_loop_fold:
  "linkparams_loop uri ps m =
     fold (\<lambda>p m'. case rel_param p of None \<Rightarrow> m' | Some r \<Rightarrow> m'(r \<mapsto> uri)) ps m"
  by (induction ps arbitrary: m) (simp_all add: rel_re_param split: option.splits)

lemma tokens_not_Nil: "tokens sep v \<noteq> []"
  by (simp add: tokens_def cut_at_not_Nil)

lemma linkval_body_spec: "linkval_body v m = Inr (links_of_value v m)"
proof (cases "tokens '';'' v")
  case Nil
  then show ?thesis using tokens_not_Nil [of "'';''" v] by simp
next
  case (Cons part0 params)
  then show ?thesis
    by (cases "link_target part0")
       (simp_all add: linkval_body_def links_of_value_def splitValues_tokens link_re_target
          linkparams_loop_fold)
qed

lemma linkvals_loop_spec: "linkvals_loop vs m = Inr (fold links_of_value vs m)"
  by (induction vs arbitrary: m) (simp_all add: linkval_body_spec)

lemma linkheaders_loop_spec:
  "linkheaders_loop hs m = Inr (fold (\<lambda>v m. fold links_of_value (tokens '','' v) m) hs m)"
  by (induction hs arbitrary: m) (simp_all add: splitValues_tokens linkvals_loop_spec)

lemma parseLinks_spec: "parseLinks headerlist = Inr (links_spec headerlist)"
  by (simp add: parseLinks_def links_spec_def linkheaders_loop_spec)

lemma fold_override:
  assumes "\<And>x m. f x m = m ++ f x Map.empty"
  shows "fold f xs m = m ++ fold f xs Map.empty"
proof (induction xs arbitrary: m)
  case Nil
  then show ?case by simp
next
  case (Cons x xs)
  have "fold f (x # xs) m = fold f xs (f x m)" by simp
  also have "\<dots> = f x m ++ fold f xs Map.empty" by (rule Cons)
  also have "\<dots> = (m ++ f x Map.empty) ++ fold f xs Map.empty" using assms [of x m] by simp
  also have "\<dots> = m ++ (f x Map.empty ++ fold f xs Map.empty)" by simp
  also have "f x Map.empty ++ fold f xs Map.empty = fold f xs (f x Map.empty)"
    by (rule Cons [symmetric])
  finally show ?case by simp
qed

lemma rel_step_override:
  "(case rel_param p of None \<Rightarrow> m | Some r \<Rightarrow> m(r \<mapsto> uri)) =
     m ++ (case rel_param p of None \<Rightarrow> Map.empty | Some r \<Rightarrow> Map.empty(r \<mapsto> uri))"
  by (cases "rel_param p") simp_all

lemma links_of_value_override: "links_of_value v m = m ++ links_of_value v Map.empty"
proof (cases "tokens '';'' v")
  case Nil
  then show ?thesis by (simp add: links_of_value_def)
next
  case (Cons part0 params)
  show ?thesis
  proof (cases "link_target part0")
    case None
    then show ?thesis using Cons by (simp add: links_of_value_def)
  next
    case (Some uri)
    let ?f = "\<lambda>p m'. case rel_param p of None \<Rightarrow> m' | Some r \<Rightarrow> m'(r \<mapsto> uri)"
    have "fold ?f params m = m ++ fold ?f params Map.empty"
      by (rule fold_override) (rule rel_step_override)
    then show ?thesis using Cons Some by (simp add: links_of_value_def)
  qed
qed

lemma links_of_header_override:
  "fold links_of_value vs m = m ++ fold links_of_value vs Map.empty"
  by (rule fold_override) (rule links_of_value_override)

lemma links_spec_append: "links_spec (hl @ hl') = links_spec hl ++ links_spec hl'"
proof -
  let ?F = "\<lambda>v m. fold links_of_value (tokens '','' v) m"
  have o: "\<And>hs m. fold ?F hs m = m ++ fold ?F hs Map.empty"
    by (rule fold_override) (rule links_of_header_override)
  let ?a = "map snd (filter (\<lambda>(h, v). lower h = ''link'') hl)"
  let ?b = "map snd (filter (\<lambda>(h, v). lower h = ''link'') hl')"
  have "links_spec (hl @ hl') = fold ?F ?b (fold ?F ?a Map.empty)"
    by (simp add: links_spec_def)
  also have "\<dots> = fold ?F ?a Map.empty ++ fold ?F ?b Map.empty" by (rule o)
  finally show ?thesis by (simp add: links_spec_def)
qed

section \<open>Claims about the tokenizer\<close>

text \<open>
  The asserts of \<open>testSplitValues\<close> in the source, evaluated on the model.
\<close>

lemma testSplitValues_1:
  "splitValues ''a,b,c'' '','' default_lq default_rq = Inr [''a'', ''b'', ''c'']"
  by code_simp

lemma testSplitValues_2:
  "splitValues (''a,'' @ [dquote] @ ''b,c'' @ [dquote] @ '',d'') '','' default_lq default_rq
     = Inr [''a'', [dquote] @ ''b,c'' @ [dquote], ''d'']"
  by code_simp

lemma testSplitValues_3:
  "splitValues (''a, '' @ [dquote] @ ''b, c'' @ [backslash, dquote] @ '', c1'' @ [dquote] @ '', d'')
       '','' default_lq default_rq
     = Inr [''a'', '' '' @ [dquote] @ ''b, c'' @ [backslash, dquote] @ '', c1'' @ [dquote], '' d'']"
  by code_simp

lemma testSplitValues_4:
  "splitValues (''a,'' @ [dquote] @ ''b,c'' @ [dquote] @ '',d'') '';'' default_lq default_rq
     = Inr [''a,'' @ [dquote] @ ''b,c'' @ [dquote] @ '',d'']"
  by code_simp

lemma testSplitValues_5:
  "splitValues (''a;'' @ [dquote] @ ''b;c'' @ [dquote] @ '';d'') '';'' default_lq default_rq
     = Inr [''a'', [dquote] @ ''b;c'' @ [dquote], ''d'']"
  by code_simp

lemma testSplitValues_6:
  "splitValues ''a;<b;c>;d'' '';'' default_lq default_rq = Inr [''a'', ''<b;c>'', ''d'']"
  by code_simp

lemma testSplitValues_7:
  "splitValues ([dquote] @ ''a;b'' @ [dquote] @ '';(c;d);e'') '';'' [dquote, CHR ''(''] [dquote, CHR '')'']
     = Inr [[dquote] @ ''a;b'' @ [dquote], ''(c;d)'', ''e'']"
  by code_simp

text \<open>
  Without a closing character for every opening one the lookup \<open>rq[lq.index(...)]\<close> raises:
  the pairing of the two sets is what the tokenizer relies on.
\<close>

lemma splitValues_unpaired_raises:
  "splitValues ''<a>'' '','' ''<'' [] = Inl IndexError"
  by code_simp

text \<open>
  C7. For every string, separator set and paired quote sets (every opening character has
  a closing one: \<open>length lq \<le> length rq\<close>), \<open>splitValues\<close> raises no error and returns,
  in order, the segments of the string cut_at at exactly its unquoted separators: those that
  \<open>unquoted_seps\<close> marks, where a separator inside a span is inert, a backslash inside a
  span skips the next character, and an unterminated span runs to the end. The final
  segment is always included, so a string with \<open>N\<close> unquoted separators gives \<open>N + 1\<close>
  segments. All pairs are handled in the same pass.
\<close>

theorem splitValues_splits_on_unquoted_separators:
  assumes "length lq \<le> length rq"
  shows "splitValues txt sep lq rq = Inr (cut_at [] (unquoted_seps sep (zip lq rq) Outside txt) txt)
       \<and> length (cut_at [] (unquoted_seps sep (zip lq rq) Outside txt) txt) =
           Suc (count_marks (unquoted_seps sep (zip lq rq) Outside txt))"
  using splitLoop_cut [OF assms, of 0 0 "txt" sep "[]"]
    length_cut [of "unquoted_seps sep (zip lq rq) Outside txt" "txt" "[]"]
  by (simp add: splitValues_def slice_same length_unquoted_seps)

text \<open>
  The theorem at \<^verbatim>\<open>a,<b,c>,"d,\",e\<close> with the default quotes: the commas inside the
  brackets and inside the unterminated quote are inert, two separators give three segments.
\<close>

theorem splitValues_splits_on_unquoted_separators_witness:
  "length default_lq \<le> length default_rq
   \<and> splitValues (''a,<b,c>,'' @ [dquote] @ ''d,'' @ [backslash, dquote] @ '',e'') '','' default_lq default_rq
       = Inr [''a'', ''<b,c>'', [dquote] @ ''d,'' @ [backslash, dquote] @ '',e'']
   \<and> count_marks (unquoted_seps '','' (zip default_lq default_rq) Outside
         (''a,<b,c>,'' @ [dquote] @ ''d,'' @ [backslash, dquote] @ '',e'')) = 2"
  using splitValues_splits_on_unquoted_separators
    [of default_lq default_rq "''a,<b,c>,'' @ [dquote] @ ''d,'' @ [backslash, dquote] @ '',e''" "'',''"]
  by (simp add: default_lq_def default_rq_def count_marks_def)

section \<open>Claims about the link header parser\<close>

text \<open>The asserts of \<open>testParseLinks\<close> in the source, evaluated on the model.\<close>

lemma testParseLinks_foo:
  "lookup (parseLinks testlinks) ''foo'' = Some ''http://example.org/foo''"
  by code_simp

lemma testParseLinks_bar:
  "lookup (parseLinks testlinks) ''bar'' = Some ''http://example.org/bar''"
  by code_simp

lemma testParseLinks_bas:
  "lookup (parseLinks testlinks) ''bas'' = Some ''http://example.org/bas''"
  by code_simp

lemma testParseLinks_bat:
  "lookup (parseLinks testlinks) ''bat'' = Some ''http://example.org/bat''"
  by code_simp

lemma testParseLinks_fum:
  "lookup (parseLinks testlinks) ''http://example.org/rel/fum'' = Some ''http://example.org/fum''"
  by code_simp

lemma testParseLinks_fas:
  "lookup (parseLinks testlinks) ''http://example.org/rel/fas'' = Some ''http://example.org/fas;far''"
  by code_simp

text \<open>
  A first part of the shape the specification asks for is accepted, with the text between
  the brackets as its target.
\<close>

lemma rstrip_append_spaces: "rstrip s @ rev (takeWhile isspace (rev s)) = s"
proof -
  have "rev (takeWhile isspace (rev s) @ dropWhile isspace (rev s)) = s" by simp
  then show ?thesis unfolding rstrip_def rev_append .
qed

lemma takeWhile_until: "a \<notin> set xs \<Longrightarrow> takeWhile (\<lambda>x. x \<noteq> a) (xs @ a # ys) = xs"
  by (induction xs) auto

lemma bracketed_uri_target:
  assumes "is_bracketed_uri part"
  shows "link_target part = Some (butlast (tl (strip part)))"
proof -
  define d where "d = dropWhile isspace part"
  define w where "w = rev (takeWhile isspace (rev d))"
  define u where "u = butlast (tl (strip part))"
  from assms obtain r where s: "strip part = CHR ''<'' # r" and r: "r \<noteq> []"
    and l: "last r = CHR ''>''" and n: "CHR ''>'' \<notin> set (butlast r)"
    by (auto simp: is_bracketed_uri_def split: list.splits)
  have "butlast r @ [last r] = r" using r by (rule append_butlast_last_id)
  then have rr: "r = u @ [CHR ''>'']" using l s by (simp add: u_def)
  have nu: "CHR ''>'' \<notin> set u" using n s by (simp add: u_def)
  have "rstrip d = CHR ''<'' # u @ [CHR ''>'']" using s rr by (simp add: strip_def d_def)
  then have d: "d = CHR ''<'' # u @ CHR ''>'' # w"
    using rstrip_append_spaces [of d] by (simp add: w_def)
  have "takeWhile (\<lambda>x. x \<noteq> CHR ''>'') (u @ CHR ''>'' # w) = u"
    using nu by (rule takeWhile_until)
  then have "link_target part = Some u"
    unfolding link_target_def d_def [symmetric] d by simp
  then show ?thesis by (simp add: u_def)
qed

text \<open>
  C8, as the specification states it, fails: a value whose first part is \<^verbatim>\<open><a>junk\<close> is
  not a bracketed URI with whitespace around it, and still it contributes the URI \<open>a\<close>
  under the relation \<open>foo\<close>. The pattern for the first part is matched with \<open>re.match\<close> and
  has no \<open>$\<close>, so the text after the closing bracket is never looked at.
\<close>

theorem parseLinks_accepts_text_after_bracket:
  "\<not> is_bracketed_uri ''<a>junk''
   \<and> splitValues ''<a>junk; rel=foo'' '';'' default_lq default_rq = Inr [''<a>junk'', '' rel=foo'']
   \<and> lookup (parseLinks [(''Link'', ''<a>junk; rel=foo'')]) ''foo'' = Some ''a''"
  by code_simp

text \<open>
  C8, amended. For every list of (name, value) pairs \<open>parseLinks\<close> raises no error and
  returns the map \<open>links_spec\<close> describes: built from exactly the values of the headers
  whose lower-cased name is \<open>link\<close>, each cut at its commas and each piece at its
  semicolons outside double quotes and angle brackets; a piece contributes when its first
  part starts, after optional whitespace, with a bracketed URI (what follows the closing
  bracket is ignored), and then it stores that URI under the value of every later part of
  the form \<open>rel = value\<close> (the value without one pair of double quotes and without trailing
  whitespace); every other piece and part is ignored. Later stores overwrite earlier ones:
  the map of a list followed by another is the map of the first overridden by the map of
  the second.
\<close>

theorem parseLinks_builds_link_map:
  "parseLinks hl = Inr (links_spec hl)
   \<and> parseLinks (hl @ hl') = Inr (links_spec hl ++ links_spec hl')"
  using parseLinks_spec [of hl] parseLinks_spec [of "hl @ hl'"] links_spec_append [of hl hl']
  by simp

section \<open>Claims about \<open>doRequest\<close>\<close>

lemma take_request [simp]: "take (Suc (length hist)) (hist @ x # rest) = hist @ [x]"
  by simp

lemma send_request_result:
  assumes "send_request e hist meth path body ctype accept reqheaders newhttpcon usehttpcon usekey
             = (hist', rh', Inr (status, reason, hdrs, data))"
  shows "case outcome_of e hist hist' of
           RequestRaises err \<Rightarrow> False
         | ResponseRaises err \<Rightarrow>
             status = 900 \<and> reason = err \<and> hdrs = [''_headerlist'' \<mapsto> HList []] \<and> data = None
         | Response st rs h d \<Rightarrow>
             status = st \<and> reason = rs \<and> hdrs = response_headers h
             \<and> data = (if st < 200 \<or> st \<ge> 300 then None else Some d)"
proof -
  define h3 where "h3 = set_if_truthy ''accept'' [] accept
      (set_if_truthy ''content-type'' [] ctype
        (set_if_truthy ''authorization'' ''Bearer '' usekey
          (case reqheaders of None \<Rightarrow> [] | Some d \<Rightarrow> d)))"
  define hist1 where "hist1 = hist @ [Request usehttpcon meth path body h3]"
  have t: "take (Suc (length hist)) (closing newhttpcon hist1) = hist1"
    by (cases newhttpcon) (simp_all add: closing_def hist1_def)
  have t': "take (Suc (length hist)) hist1 = hist1" by (simp add: hist1_def)
  show ?thesis
  proof (cases "server e hist1")
    case (RequestRaises err)
    then show ?thesis using assms by (simp add: send_request_def Let_def h3_def hist1_def)
  next
    case (ResponseRaises err)
    then have "hist' = closing newhttpcon hist1 \<and> status = 900 \<and> reason = err
        \<and> hdrs = [''_headerlist'' \<mapsto> HList []] \<and> data = None"
      using assms by (simp add: send_request_def Let_def h3_def hist1_def)
    then show ?thesis using ResponseRaises t by (simp add: outcome_of_def)
  next
    case (Response st rs h d)
    then have "hist' = closing newhttpcon hist1 \<and> status = st \<and> reason = rs
        \<and> hdrs = response_headers h \<and> data = (if st < 200 \<or> st \<ge> 300 then None else Some d)"
      using assms by (auto simp: send_request_def Let_def h3_def hist1_def)
    then show ?thesis using Response t by (simp add: outcome_of_def)
  qed
qed

lemma doRequest_result:
  assumes "doRequest e self hist uripath meth body ctype accept reqheaders exthost
             = (hist', rh', Inr (status, reason, hdrs, data))"
  shows "case outcome_of e hist hist' of
           RequestRaises err \<Rightarrow> False
         | ResponseRaises err \<Rightarrow>
             status = 900 \<and> reason = err \<and> hdrs = [''_headerlist'' \<mapsto> HList []] \<and> data = None
         | Response st rs h d \<Rightarrow>
             status = st \<and> reason = rs \<and> hdrs = response_headers h
             \<and> data = (if st < 200 \<or> st \<ge> 300 then None else Some d)"
proof -
  from assms obtain path newhttpcon usehttpcon usekey where
    "send_request e hist meth path body ctype accept reqheaders newhttpcon usehttpcon usekey
       = (hist', rh', Inr (status, reason, hdrs, data))"
    by (auto simp: doRequest_def Let_def split: if_splits)
  then show ?thesis by (rule send_request_result)
qed

lemma response_headers_headerlist: "response_headers h ''_headerlist'' = Some (HList (lowered h))"
  by (simp add: response_headers_def)

text \<open>
  C10. Whenever \<open>doRequest\<close> returns a response, its headers hold the key \<open>_headerlist\<close>.
  When the response was read, the key maps to the list of the response's (name, value)
  pairs in their order, the names lower-cased; when reading it failed, the status is 900
  and the headers are exactly \<open>{'_headerlist': []}\<close>. \<open>HTTP_Session.parseLinks\<close> reads that
  key and returns a link map: it raises on no headers \<open>doRequest\<close> returns.
\<close>

theorem doRequest_headers_hold_headerlist:
  assumes "doRequest e self hist uripath meth body ctype accept reqheaders exthost
             = (hist', rh', Inr (status, reason, hdrs, data))"
  shows "(case outcome_of e hist hist' of
            RequestRaises err \<Rightarrow> False
          | ResponseRaises err \<Rightarrow>
              status = 900 \<and> hdrs = [''_headerlist'' \<mapsto> HList []]
              \<and> session_parseLinks hdrs = parseLinks []
          | Response st rs h d \<Rightarrow>
              hdrs ''_headerlist'' = Some (HList (lowered h))
              \<and> session_parseLinks hdrs = parseLinks (lowered h))
         \<and> (\<exists>links. session_parseLinks hdrs = Inr links)"
proof (cases "outcome_of e hist hist'")
  case (RequestRaises err)
  then show ?thesis using doRequest_result [OF assms] by simp
next
  case (ResponseRaises err)
  then have "status = 900 \<and> hdrs = [''_headerlist'' \<mapsto> HList []]"
    using doRequest_result [OF assms] by simp
  then show ?thesis using ResponseRaises by (simp add: session_parseLinks_def parseLinks_spec)
next
  case (Response st rs h d)
  then have "hdrs = response_headers h" using doRequest_result [OF assms] by simp
  then show ?thesis
    using Response by (simp add: session_parseLinks_def response_headers_headerlist parseLinks_spec)
qed

text \<open>
  The theorem on a redirect response with a \<open>Location\<close> header and on a response that
  cannot be read.
\<close>

theorem doRequest_headers_hold_headerlist_witness:
  "doRequest redirecting ex_session [] ''/a'' ''GET'' None None None None False
     = ([Request SessionConn ''GET'' ''/a'' None [(''authorization'', ''Bearer secret'')]], None,
        Inr (302, ''Found'', response_headers [(''Location'', ''/b'')], None))
   \<and> response_headers [(''Location'', ''/b'')] ''_headerlist'' = Some (HList [(''location'', ''/b'')])
   \<and> (\<exists>links. session_parseLinks (response_headers [(''Location'', ''/b'')]) = Inr links)
   \<and> doRequest broken ex_session [] ''/a'' ''GET'' None None None None False
     = ([Request SessionConn ''GET'' ''/a'' None [(''authorization'', ''Bearer secret'')]], None,
        Inr (900, ''BadStatusLine'', [''_headerlist'' \<mapsto> HList []], None))"
proof -
  let ?h = "[Request SessionConn ''GET'' ''/a'' None [(''authorization'', ''Bearer secret'')]]"
  have a: "doRequest redirecting ex_session [] ''/a'' ''GET'' None None None None False
     = (?h, None, Inr (302, ''Found'', response_headers [(''Location'', ''/b'')], None))"
    by (simp add: doRequest_def send_request_def redirecting_def ex_env_def ex_session_def
        ex_resolve_def set_if_truthy_def closing_def last_path_def Let_def)
  have b: "doRequest broken ex_session [] ''/a'' ''GET'' None None None None False
     = (?h, None, Inr (900, ''BadStatusLine'', [''_headerlist'' \<mapsto> HList []], None))"
    by (simp add: doRequest_def send_request_def broken_def ex_env_def ex_session_def
        ex_resolve_def set_if_truthy_def closing_def Let_def)
  have o: "outcome_of redirecting [] ?h = Response 302 ''Found'' [(''Location'', ''/b'')] []"
    by (simp add: outcome_of_def redirecting_def ex_env_def last_path_def)
  have l: "lowered [(''Location'', ''/b'')] = [(''location'', ''/b'')]"
    by (simp add: lowered_def lower_def lower_char_def)
  from doRequest_headers_hold_headerlist [OF a] o l a b show ?thesis by (simp add: parseLinks_spec)
qed

text \<open>
  What \<open>doRequest\<close> returns once it has issued its request, by the outcome of the request:
  a failure inside the \<open>try\<close> block becomes a response with status 900, a failure of
  \<open>request\<close> itself leaves the function as an exception.
\<close>

lemma send_request_cases:
  assumes "send_request e hist meth path body ctype accept reqheaders newhttpcon usehttpcon usekey
             = (hist', rh', r)"
  shows "case outcome_of e hist hist' of
           RequestRaises err \<Rightarrow> r = Inl (TransportError err)
         | ResponseRaises err \<Rightarrow> r = Inr (900, err, [''_headerlist'' \<mapsto> HList []], None)
         | Response st rs h d \<Rightarrow>
             r = Inr (st, rs, response_headers h, if st < 200 \<or> st \<ge> 300 then None else Some d)"
proof -
  define h3 where "h3 = set_if_truthy ''accept'' [] accept
      (set_if_truthy ''content-type'' [] ctype
        (set_if_truthy ''authorization'' ''Bearer '' usekey
          (case reqheaders of None \<Rightarrow> [] | Some d \<Rightarrow> d)))"
  define hist1 where "hist1 = hist @ [Request usehttpcon meth path body h3]"
  have t: "take (Suc (length hist)) (closing newhttpcon hist1) = hist1"
    by (cases newhttpcon) (simp_all add: closing_def hist1_def)
  have t': "take (Suc (length hist)) hist1 = hist1" by (simp add: hist1_def)
  show ?thesis
  proof (cases "server e hist1")
    case (RequestRaises err)
    then have "hist' = hist1 \<and> r = Inl (TransportError err)"
      using assms by (auto simp: send_request_def Let_def h3_def hist1_def)
    then show ?thesis using RequestRaises t' by (simp add: outcome_of_def)
  next
    case (ResponseRaises err)
    then have "hist' = closing newhttpcon hist1
        \<and> r = Inr (900, err, [''_headerlist'' \<mapsto> HList []], None)"
      using assms by (auto simp: send_request_def Let_def h3_def hist1_def)
    then show ?thesis using ResponseRaises t by (simp add: outcome_of_def)
  next
    case (Response st rs h d)
    then have "hist' = closing newhttpcon hist1
        \<and> r = Inr (st, rs, response_headers h, if st < 200 \<or> st \<ge> 300 then None else Some d)"
      using assms by (auto simp: send_request_def Let_def h3_def hist1_def)
    then show ?thesis using Response t by (simp add: outcome_of_def)
  qed
qed

lemma send_request_extends:
  "send_request e hist meth path body ctype accept reqheaders newhttpcon usehttpcon usekey
     = (hist', rh', r) \<Longrightarrow> hist' \<noteq> hist"
  by (auto simp: send_request_def Let_def closing_def split: outcome.splits option.splits)

lemma doRequest_sends_or_raises:
  assumes "doRequest e self hist uripath meth body ctype accept reqheaders exthost = (hist', rh', r)"
  shows "(hist' = hist \<and> (\<exists>msg v u. r = Inl (HTTP_Error msg v u)))
       \<or> (\<exists>path newhttpcon usehttpcon usekey.
            send_request e hist meth path body ctype accept reqheaders newhttpcon usehttpcon usekey
              = (hist', rh', r))"
  using assms by (auto simp: doRequest_def Let_def split: if_splits)

lemma doRequest_catches_failed_response:
  assumes "doRequest e self hist uripath meth body ctype accept reqheaders exthost = (hist', rh', r)"
    and "hist' \<noteq> hist"
    and "outcome_of e hist hist' = ResponseRaises err"
  shows "r = Inr (900, err, [''_headerlist'' \<mapsto> HList []], None)"
proof -
  from doRequest_sends_or_raises [OF assms(1)] assms(2)
  obtain path newhttpcon usehttpcon usekey where
    "send_request e hist meth path body ctype accept reqheaders newhttpcon usehttpcon usekey
       = (hist', rh', r)"
    by auto
  from send_request_cases [OF this] assms(3) show ?thesis by simp
qed

lemma doRequest_failed_request_escapes:
  assumes "doRequest e self hist uripath meth body ctype accept reqheaders exthost = (hist', rh', r)"
    and "hist' \<noteq> hist"
    and "outcome_of e hist hist' = RequestRaises err"
  shows "r = Inl (TransportError err)"
proof -
  from doRequest_sends_or_raises [OF assms(1)] assms(2)
  obtain path newhttpcon usehttpcon usekey where
    "send_request e hist meth path body ctype accept reqheaders newhttpcon usehttpcon usekey
       = (hist', rh', r)"
    by auto
  from send_request_cases [OF this] assms(3) show ?thesis by simp
qed

text \<open>
  C1. The claim holds for failures in \<open>getresponse\<close> and \<open>read\<close>
  (\<open>doRequest_catches_failed_response\<close>) and fails for a failure while the request is
  issued: \<open>usehttpcon.request(...)\<close>, which opens the connection, is called before the
  \<open>try\<close>. Against a server that refuses the connection \<open>doRequest\<close> returns no response:
  the exception leaves it.
\<close>

theorem doRequest_connection_refused_escapes:
  "doRequest refusing ex_session [] ''/a'' ''GET'' None None None None False
     = ([Request SessionConn ''GET'' ''/a'' None [(''authorization'', ''Bearer secret'')]], None,
        Inl (TransportError ''Connection refused''))"
  by (simp add: doRequest_def send_request_def refusing_def ex_env_def ex_session_def
      ex_resolve_def set_if_truthy_def Let_def)

text \<open>
  A URI of another scheme or host without \<open>exthost\<close>: the error is raised with the history
  unchanged, so before any call on a connection.
\<close>

lemma doRequest_mismatch_raises:
  assumes "\<not> exthost"
    and "uri_scheme (resolve e (s_baseuri self) uripath) \<noteq> []
           \<and> uri_scheme (resolve e (s_baseuri self) uripath) \<noteq> s_scheme self
         \<or> uri_netloc (resolve e (s_baseuri self) uripath) \<noteq> []
           \<and> uri_netloc (resolve e (s_baseuri self) uripath) \<noteq> s_host self"
  shows "\<exists>msg v. msg \<in> {''URI scheme mismatch'', ''URI host:port mismatch''}
           \<and> doRequest e self hist uripath meth body ctype accept reqheaders exthost
               = (hist, reqheaders, Inl (HTTP_Error msg v (s_baseuri self)))"
  using assms by (auto simp: doRequest_def Let_def)

lemma dict_set_keys: "fst ` set (dict_set k v d) = insert k (fst ` set d)"
proof (induction d)
  case Nil
  then show ?case by simp
next
  case (Cons a d)
  obtain k' v' where a: "a = (k', v')" by (cases a)
  show ?case
  proof (cases "k' = k")
    case True
    then show ?thesis using a by simp
  next
    case False
    then show ?thesis using a Cons by (simp add: insert_commute)
  qed
qed

lemma set_if_truthy_keys: "fst ` set (set_if_truthy k pre v d) \<subseteq> insert k (fst ` set d)"
  by (auto simp: set_if_truthy_def dict_set_keys split: option.splits)

text \<open>
  With \<open>exthost\<close>, the request goes over a connection made for the call, which is closed
  when a response or a failure to read one has been received; and when the caller passes
  no headers of its own, the request carries no \<open>authorization\<close> header.
\<close>

lemma doRequest_foreign_host:
  assumes "exthost"
    and "uri_scheme (resolve e (s_baseuri self) uripath) \<noteq> []
           \<and> uri_scheme (resolve e (s_baseuri self) uripath) \<noteq> s_scheme self
         \<or> uri_netloc (resolve e (s_baseuri self) uripath) \<noteq> []
           \<and> uri_netloc (resolve e (s_baseuri self) uripath) \<noteq> s_host self"
    and "reqheaders = None \<or> reqheaders = Some []"
    and "doRequest e self hist uripath meth body ctype accept reqheaders exthost = (hist', rh', r)"
  shows "\<exists>path h. ''authorization'' \<notin> fst ` set h
           \<and> (hist' = hist @ [Request (NewConn (uri_netloc (resolve e (s_baseuri self) uripath)))
                                meth path body h]
                  \<and> (\<exists>err. r = Inl (TransportError err))
               \<or> hist' = hist @ [Request (NewConn (uri_netloc (resolve e (s_baseuri self) uripath)))
                                   meth path body h,
                                 Close (NewConn (uri_netloc (resolve e (s_baseuri self) uripath)))])"
proof -
  define n where "n = uri_netloc (resolve e (s_baseuri self) uripath)"
  define path where "path = uri_path (resolve e (s_baseuri self) uripath) @
    (if uri_query (resolve e (s_baseuri self) uripath) \<noteq> []
     then ''?'' @ uri_query (resolve e (s_baseuri self) uripath) else [])"
  define h where "h = set_if_truthy ''accept'' [] accept (set_if_truthy ''content-type'' [] ctype [])"
  have k: "''authorization'' \<notin> fst ` set h"
    using set_if_truthy_keys [of "''accept''" "[]" accept "set_if_truthy ''content-type'' [] ctype []"]
      set_if_truthy_keys [of "''content-type''" "[]" ctype "[]"]
    by (auto simp: h_def)
  have s: "send_request e hist meth path body ctype accept reqheaders (Some (NewConn n)) (NewConn n) None
             = (hist', rh', r)"
    using assms(1,2,4) by (auto simp: doRequest_def Let_def n_def path_def)
  have h0: "(case reqheaders of None \<Rightarrow> [] | Some d \<Rightarrow> d) = []" using assms(3) by auto
  have "hist' = hist @ [Request (NewConn n) meth path body h] \<and> (\<exists>err. r = Inl (TransportError err))
      \<or> hist' = hist @ [Request (NewConn n) meth path body h, Close (NewConn n)]"
    using s h0
    by (auto simp: send_request_def Let_def h_def closing_def set_if_truthy_def
        split: outcome.splits)
  then show ?thesis using k unfolding n_def by blast
qed

text \<open>
  C2. The claim holds for a mismatch without \<open>exthost\<close> (\<open>doRequest_mismatch_raises\<close>) and
  for the connection of a call with \<open>exthost\<close> (\<open>doRequest_foreign_host\<close>), and fails for
  the credential: \<open>doRequest\<close> stores the \<open>authorization\<close> header in the dictionary the
  caller passed, and never removes it. A request to the session's own host with the
  headers \<open>{'slug': 'x'}\<close> leaves the bearer credential in that dictionary; the next call
  with the same dictionary, to another host with \<open>exthost\<close>, sends it to that host. This is
  the sequence \<open>doRequestFollowRedirect\<close> runs when a response redirects to another host.
\<close>

theorem doRequest_sends_credential_to_foreign_host:
  "fst (snd (doRequest leaving ex_session [] ''/a'' ''GET'' None None None (Some [(''slug'', ''x'')]) True))
     = Some [(''slug'', ''x''), (''authorization'', ''Bearer secret'')]
   \<and> fst (doRequest leaving ex_session [] ''http://other.org/b'' ''GET'' None None None
            (Some [(''slug'', ''x''), (''authorization'', ''Bearer secret'')]) True)
     = [Request (NewConn ''other.org'') ''GET'' ''/b'' None
          [(''slug'', ''x''), (''authorization'', ''Bearer secret'')],
        Close (NewConn ''other.org'')]
   \<and> fst (doRequestFollowRedirect leaving ex_session [] ''/a'' ''GET'' None None None
            (Some [(''slug'', ''x'')]) True)
     = [Request SessionConn ''GET'' ''/a'' None
          [(''slug'', ''x''), (''authorization'', ''Bearer secret'')],
        Request (NewConn ''other.org'') ''GET'' ''/b'' None
          [(''slug'', ''x''), (''authorization'', ''Bearer secret'')],
        Close (NewConn ''other.org'')]"
  by code_simp

section \<open>Claims about \<open>doRequestFollowRedirect\<close>\<close>

text \<open>
  The three ways \<open>doRequestFollowRedirect\<close> returns a response: after the first request
  when it is no redirect; after the second when the first was a 302, 303 or 307 and the
  second is no 302 or 307; and after the third, whatever its status, when the second was a
  302 or 307. The third request is made without the \<open>accept\<close> argument.
\<close>

lemma doRequestFollowRedirect_not_redirected:
  assumes "doRequest e self hist uripath meth body ctype accept reqheaders exthost
             = (hist1, rh1, Inr (status1, reason1, hdrs1, data1))"
    and "status1 \<notin> {302, 303, 307}"
  shows "doRequestFollowRedirect e self hist uripath meth body ctype accept reqheaders exthost
           = (hist1, rh1, Inr (status1, reason1, hdrs1, uripath, data1))"
  using assms by (simp add: doRequestFollowRedirect_def)

lemma doRequestFollowRedirect_one_redirect:
  assumes "doRequest e self hist uripath meth body ctype accept reqheaders exthost
             = (hist1, rh1, Inr (status1, reason1, hdrs1, data1))"
    and "status1 \<in> {302, 303, 307}"
    and "hdrs1 ''location'' = Some (HStr loc)"
    and "doRequest e self hist1 loc meth body ctype accept rh1 exthost
             = (hist2, rh2, Inr (status2, reason2, hdrs2, data2))"
    and "status2 \<notin> {302, 307}"
  shows "doRequestFollowRedirect e self hist uripath meth body ctype accept reqheaders exthost
           = (hist2, rh2, Inr (status2, reason2, hdrs2, loc, data2))"
  using assms by (simp add: doRequestFollowRedirect_def header_str_def)

lemma doRequestFollowRedirect_two_redirects:
  assumes "doRequest e self hist uripath meth body ctype accept reqheaders exthost
             = (hist1, rh1, Inr (status1, reason1, hdrs1, data1))"
    and "status1 \<in> {302, 303, 307}"
    and "hdrs1 ''location'' = Some (HStr loc)"
    and "doRequest e self hist1 loc meth body ctype accept rh1 exthost
             = (hist2, rh2, Inr (status2, reason2, hdrs2, data2))"
    and "status2 \<in> {302, 307}"
    and "hdrs2 ''location'' = Some (HStr loc2)"
    and "doRequest e self hist2 loc2 meth body ctype None rh2 exthost
             = (hist3, rh3, Inr (status3, reason3, hdrs3, data3))"
  shows "doRequestFollowRedirect e self hist uripath meth body ctype accept reqheaders exthost
           = (hist3, rh3, Inr (status3, reason3, hdrs3, loc2, data3))"
  using assms by (simp add: doRequestFollowRedirect_def header_str_def)

text \<open>
  C3. The statuses that are followed and the bound of two redirects are as the claim says;
  the request of the second redirect is not the identical request. The first two calls of
  \<open>doRequest\<close> pass \<open>accept=accept\<close>, the third passes no \<open>accept\<close>. With the accept value
  \<open>text/turtle\<close> and no caller headers, against a server that redirects \<open>/a\<close> to \<open>/b\<close> with
  302 and \<open>/b\<close> to \<open>/c\<close> with 307, the third request is sent without the \<open>accept\<close> header
  of the first two; the response to it is returned with the final URI \<open>/c\<close>.
\<close>

theorem doRequestFollowRedirect_second_redirect_drops_accept:
  "fst (doRequestFollowRedirect redirecting ex_session [] ''/a'' ''GET'' None None
          (Some ''text/turtle'') None False)
     = [Request SessionConn ''GET'' ''/a'' None
          [(''authorization'', ''Bearer secret''), (''accept'', ''text/turtle'')],
        Request SessionConn ''GET'' ''/b'' None
          [(''authorization'', ''Bearer secret''), (''accept'', ''text/turtle'')],
        Request SessionConn ''GET'' ''/c'' None
          [(''authorization'', ''Bearer secret'')]]
   \<and> (case snd (snd (doRequestFollowRedirect redirecting ex_session [] ''/a'' ''GET'' None None
                       (Some ''text/turtle'') None False)) of
         Inl err \<Rightarrow> None
       | Inr (status, reason, hdrs, uripath, data) \<Rightarrow> Some (status, uripath, data))
     = Some (200, ''/c'', Some ''done'')"
  by code_simp

section \<open>Claims about \<open>doRequestRDF\<close>\<close>

lemma rdf_success_other_status:
  "\<not> (200 \<le> status \<and> status < 300) \<Longrightarrow>
   rdf_success e hist uripath graph status reason hdrs data
     = (hist, Inr (status, reason, hdrs, Body data))"
  by (auto simp: rdf_success_def)

lemma rdf_success_not_rdf:
  "200 \<le> status \<Longrightarrow> status < 300 \<Longrightarrow> hdrs ''content-type'' = Some (HStr ct) \<Longrightarrow>
   map_of RDF_CONTENT_TYPES (lower (strip (split_before ct '';''))) = None \<Longrightarrow>
   rdf_success e hist uripath graph status reason hdrs data
     = (hist, Inr (901, ''Non-RDF content-type returned'', hdrs, Body data))"
  by (simp add: rdf_success_def Let_def)

lemma rdf_success_parse_failure:
  "200 \<le> status \<Longrightarrow> status < 300 \<Longrightarrow> hdrs ''content-type'' = Some (HStr ct) \<Longrightarrow>
   map_of RDF_CONTENT_TYPES (lower (strip (split_before ct '';''))) = Some fmt \<Longrightarrow>
   rdf_parse e (case graph of Some g \<Rightarrow> g | None \<Rightarrow> []) d (bodyformat_of uripath fmt) = Inl err \<Longrightarrow>
   rdf_success e hist uripath graph status reason hdrs (Some d)
     = (hist @ [RdfParse d (bodyformat_of uripath fmt)],
        Inr (902, ''RDF ('' @ bodyformat_of uripath fmt @ '') parse failure'', hdrs, Body (Some d)))"
  by (simp add: rdf_success_def Let_def)

lemma rdf_success_graph:
  "200 \<le> status \<Longrightarrow> status < 300 \<Longrightarrow> hdrs ''content-type'' = Some (HStr ct) \<Longrightarrow>
   map_of RDF_CONTENT_TYPES (lower (strip (split_before ct '';''))) = Some fmt \<Longrightarrow>
   rdf_parse e (case graph of Some g \<Rightarrow> g | None \<Rightarrow> []) d (bodyformat_of uripath fmt) = Inr g' \<Longrightarrow>
   rdf_success e hist uripath graph status reason hdrs (Some d)
     = (hist @ [RdfParse d (bodyformat_of uripath fmt)], Inr (status, reason, hdrs, Graph g'))"
  by (simp add: rdf_success_def Let_def)

lemma doRequestRDF_plain:
  "\<not> contains uripath w3id_prefix \<Longrightarrow>
   doRequest e self hist uripath meth body ctype (Some ACCEPT_RDF_CONTENT_TYPES) reqheaders exthost
     = (hist1, rh1, Inr (status, reason, hdrs, data)) \<Longrightarrow>
   doRequestRDF e self hist uripath meth body ctype reqheaders exthost graph
     = (fst (rdf_success e hist1 uripath graph status reason hdrs data), rh1,
        snd (rdf_success e hist1 uripath graph status reason hdrs data))"
  by (simp add: doRequestRDF_def split: prod.splits)

lemma doRequest_success_has_body:
  assumes "doRequest e self hist uripath meth body ctype accept reqheaders exthost
             = (hist', rh', Inr (status, reason, hdrs, data))"
    and "200 \<le> status" and "status < 300"
  shows "data \<noteq> None"
proof (cases "outcome_of e hist hist'")
  case (RequestRaises err)
  then show ?thesis using doRequest_result [OF assms(1)] by simp
next
  case (ResponseRaises err)
  then show ?thesis using doRequest_result [OF assms(1)] assms(3) by simp
next
  case (Response st rs h d)
  then show ?thesis using doRequest_result [OF assms(1)] assms(2,3) by auto
qed

text \<open>
  C4, as the specification states it, fails in two places. A URI that contains
  \<open>w3id.org/ro-id\<close> is not requested through \<open>doRequest\<close>: the search index is asked instead
  and the body is replaced by the text the index holds, so a 404 response with the body
  \<open>{}\<close> comes back with the empty string as its body, not passed through unchanged. And a
  response with a status from 200 to 299 and no \<open>content-type\<close> header (a 204, say) ends
  in a \<open>KeyError\<close>, not in the status 901.
\<close>

theorem doRequestRDF_body_replaced_and_KeyError:
  "requests_get refusing [RequestsGet (index_endpoint @ ''abc'')]
     = Inr \<lparr>r_url = [], r_status_code = 404, r_reason = ''Not Found'', r_headers = [],
            r_content = ''{}''\<rparr>
   \<and> doRequestRDF refusing ex_session [] ''http://w3id.org/ro-id/abc'' ''GET'' None None None False None
     = ([RequestsGet (index_endpoint @ ''abc'')], None,
        Inr (404, ''Not Found'', requests_headers [], Body (Some [])))
   \<and> snd (snd (doRequestRDF no_content ex_session [] ''/a'' ''DELETE'' None None None False None))
     = Inl (KeyError ''content-type'')"
proof -
  have c: "contains ''http://w3id.org/ro-id/abc'' w3id_prefix" by code_simp
  have w: "w3id_rewrite refusing [] ''http://w3id.org/ro-id/abc'' = ([], Inr (index_endpoint @ ''abc''))"
    by code_simp
  have g: "requests_get refusing [RequestsGet (index_endpoint @ ''abc'')]
     = Inr \<lparr>r_url = [], r_status_code = 404, r_reason = ''Not Found'', r_headers = [],
            r_content = ''{}''\<rparr>"
    by (simp add: refusing_def ex_env_def)
  have j: "json_results_text refusing ''{}'' = Inr None" by (simp add: refusing_def ex_env_def)
  have a: "doRequestRDF refusing ex_session [] ''http://w3id.org/ro-id/abc'' ''GET'' None None None False None
     = ([RequestsGet (index_endpoint @ ''abc'')], None,
        Inr (404, ''Not Found'', requests_headers [], Body (Some [])))"
    using c w g j by (simp add: doRequestRDF_def Let_def rdf_success_def)
  have n: "\<not> contains ''/a'' w3id_prefix" by code_simp
  have d: "doRequest no_content ex_session [] ''/a'' ''DELETE'' None None
             (Some ACCEPT_RDF_CONTENT_TYPES) None False
     = ([Request SessionConn ''DELETE'' ''/a'' None
           [(''authorization'', ''Bearer secret''), (''accept'', ACCEPT_RDF_CONTENT_TYPES)]], None,
        Inr (204, ''No Content'', response_headers [], Some []))"
    by (simp add: doRequest_def send_request_def no_content_def ex_env_def ex_session_def
        ex_resolve_def set_if_truthy_def closing_def Let_def ACCEPT_RDF_CONTENT_TYPES_def)
  have k: "response_headers [] ''content-type'' = None"
    by (simp add: response_headers_def lowered_def)
  have b: "snd (snd (doRequestRDF no_content ex_session [] ''/a'' ''DELETE'' None None None False None))
     = Inl (KeyError ''content-type'')"
    using doRequestRDF_plain [OF n d] k by (simp add: rdf_success_def)
  from g a b show ?thesis by simp
qed

text \<open>
  C4, amended. For every call of \<open>doRequestRDF\<close> whose URI does not contain
  \<open>w3id.org/ro-id\<close> and whose request (made by \<open>doRequest\<close> with the accept header of the
  RDF content types) returns a response: when the status is not from 200 to 299, the
  response is returned unchanged and nothing is parsed; when it is, the response has a
  body, and if it carries a \<open>content-type\<close> header then, by that header's value up to the
  first \<open>;\<close>, stripped and lower-cased: a value that is not a recognized RDF content type
  gives the status 901 with the body as received and nothing parsed; a recognized one whose
  body does not parse gives the status 902 with the body as received; and where the body
  parses, the body returned is the graph parsed into the caller's graph, or into a new
  one when the caller gave none.
\<close>

theorem doRequestRDF_negotiates:
  assumes "\<not> contains uripath w3id_prefix"
    and "doRequest e self hist uripath meth body ctype (Some ACCEPT_RDF_CONTENT_TYPES) reqheaders exthost
           = (hist1, rh1, Inr (status, reason, hdrs, data))"
  shows "(\<not> (200 \<le> status \<and> status < 300) \<longrightarrow>
            doRequestRDF e self hist uripath meth body ctype reqheaders exthost graph
              = (hist1, rh1, Inr (status, reason, hdrs, Body data)))
       \<and> (200 \<le> status \<and> status < 300 \<longrightarrow> data \<noteq> None)
       \<and> (200 \<le> status \<and> status < 300 \<and> hdrs ''content-type'' = Some (HStr ct)
            \<and> map_of RDF_CONTENT_TYPES (lower (strip (split_before ct '';''))) = None \<longrightarrow>
            doRequestRDF e self hist uripath meth body ctype reqheaders exthost graph
              = (hist1, rh1, Inr (901, ''Non-RDF content-type returned'', hdrs, Body data)))
       \<and> (200 \<le> status \<and> status < 300 \<and> hdrs ''content-type'' = Some (HStr ct)
            \<and> map_of RDF_CONTENT_TYPES (lower (strip (split_before ct '';''))) = Some fmt
            \<and> data = Some d
            \<and> rdf_parse e (case graph of Some g \<Rightarrow> g | None \<Rightarrow> []) d (bodyformat_of uripath fmt)
                = Inl err \<longrightarrow>
            doRequestRDF e self hist uripath meth body ctype reqheaders exthost graph
              = (hist1 @ [RdfParse d (bodyformat_of uripath fmt)], rh1,
                 Inr (902, ''RDF ('' @ bodyformat_of uripath fmt @ '') parse failure'', hdrs,
                      Body (Some d))))
       \<and> (200 \<le> status \<and> status < 300 \<and> hdrs ''content-type'' = Some (HStr ct)
            \<and> map_of RDF_CONTENT_TYPES (lower (strip (split_before ct '';''))) = Some fmt
            \<and> data = Some d
            \<and> rdf_parse e (case graph of Some g \<Rightarrow> g | None \<Rightarrow> []) d (bodyformat_of uripath fmt)
                = Inr g' \<longrightarrow>
            doRequestRDF e self hist uripath meth body ctype reqheaders exthost graph
              = (hist1 @ [RdfParse d (bodyformat_of uripath fmt)], rh1,
                 Inr (status, reason, hdrs, Graph g')))"
proof -
  note p = doRequestRDF_plain [OF assms, of graph]
  have 1: "\<not> (200 \<le> status \<and> status < 300) \<longrightarrow>
            doRequestRDF e self hist uripath meth body ctype reqheaders exthost graph
              = (hist1, rh1, Inr (status, reason, hdrs, Body data))"
    using p rdf_success_other_status [of status e hist1 uripath graph reason hdrs data] by simp
  have 2: "200 \<le> status \<and> status < 300 \<longrightarrow> data \<noteq> None"
    using doRequest_success_has_body [OF assms(2)] by simp
  have 3: "200 \<le> status \<and> status < 300 \<and> hdrs ''content-type'' = Some (HStr ct)
            \<and> map_of RDF_CONTENT_TYPES (lower (strip (split_before ct '';''))) = None \<longrightarrow>
            doRequestRDF e self hist uripath meth body ctype reqheaders exthost graph
              = (hist1, rh1, Inr (901, ''Non-RDF content-type returned'', hdrs, Body data))"
    using p rdf_success_not_rdf [of status hdrs ct e hist1 uripath graph reason data] by simp
  have 4: "200 \<le> status \<and> status < 300 \<and> hdrs ''content-type'' = Some (HStr ct)
            \<and> map_of RDF_CONTENT_TYPES (lower (strip (split_before ct '';''))) = Some fmt
            \<and> data = Some d
            \<and> rdf_parse e (case graph of Some g \<Rightarrow> g | None \<Rightarrow> []) d (bodyformat_of uripath fmt)
                = Inl err \<longrightarrow>
            doRequestRDF e self hist uripath meth body ctype reqheaders exthost graph
              = (hist1 @ [RdfParse d (bodyformat_of uripath fmt)], rh1,
                 Inr (902, ''RDF ('' @ bodyformat_of uripath fmt @ '') parse failure'', hdrs,
                      Body (Some d)))"
    using p rdf_success_parse_failure [of status hdrs ct fmt e graph d uripath err hist1 reason]
    by simp
  have 5: "200 \<le> status \<and> status < 300 \<and> hdrs ''content-type'' = Some (HStr ct)
            \<and> map_of RDF_CONTENT_TYPES (lower (strip (split_before ct '';''))) = Some fmt
            \<and> data = Some d
            \<and> rdf_parse e (case graph of Some g \<Rightarrow> g | None \<Rightarrow> []) d (bodyformat_of uripath fmt)
                = Inr g' \<longrightarrow>
            doRequestRDF e self hist uripath meth body ctype reqheaders exthost graph
              = (hist1 @ [RdfParse d (bodyformat_of uripath fmt)], rh1,
                 Inr (status, reason, hdrs, Graph g'))"
    using p rdf_success_graph [of status hdrs ct fmt e graph d uripath g' hist1 reason]
    by simp
  from 1 2 3 4 5 show ?thesis by blast
qed

text \<open>
  The theorem at four responses to \<open>GET /a\<close>: a 404; a 200 of type \<open>text/plain\<close>; a 200
  of type \<open>text/turtle\<close> whose body does not parse; and a 200 of type
  \<open>Text/Turtle; charset=utf-8\<close> whose body parses into a graph the caller supplied.
\<close>

theorem doRequestRDF_negotiates_witness:
  "doRequestRDF (answering 404 ''text/html'' ''x'') ex_session [] ''/a'' ''GET'' None None None False None
     = ([Request SessionConn ''GET'' ''/a'' None
           [(''authorization'', ''Bearer secret''), (''accept'', ACCEPT_RDF_CONTENT_TYPES)]], None,
        Inr (404, ''R'', response_headers [(''Content-Type'', ''text/html'')], Body None))
   \<and> doRequestRDF (answering 200 ''text/plain'' ''x'') ex_session [] ''/a'' ''GET'' None None None False None
     = ([Request SessionConn ''GET'' ''/a'' None
           [(''authorization'', ''Bearer secret''), (''accept'', ACCEPT_RDF_CONTENT_TYPES)]], None,
        Inr (901, ''Non-RDF content-type returned'',
             response_headers [(''Content-Type'', ''text/plain'')], Body (Some ''x'')))
   \<and> doRequestRDF (answering 200 ''text/turtle'' ''bad'') ex_session [] ''/a'' ''GET'' None None None False None
     = ([Request SessionConn ''GET'' ''/a'' None
           [(''authorization'', ''Bearer secret''), (''accept'', ACCEPT_RDF_CONTENT_TYPES)],
         RdfParse ''bad'' ''n3''], None,
        Inr (902, ''RDF (n3) parse failure'',
             response_headers [(''Content-Type'', ''text/turtle'')], Body (Some ''bad'')))
   \<and> doRequestRDF (answering 200 ''Text/Turtle; charset=utf-8'' ''ok'') ex_session [] ''/a'' ''GET'' None
         None None False (Some [(URIRef ''a'', URIRef ''b'', Literal ''c'')])
     = ([Request SessionConn ''GET'' ''/a'' None
           [(''authorization'', ''Bearer secret''), (''accept'', ACCEPT_RDF_CONTENT_TYPES)],
         RdfParse ''ok'' ''n3''], None,
        Inr (200, ''R'', response_headers [(''Content-Type'', ''Text/Turtle; charset=utf-8'')],
             Graph [(URIRef ''a'', URIRef ''b'', Literal ''c''), (URIRef ''s'', URIRef ''p'', Literal ''o'')]))"
proof -
  let ?h = "[Request SessionConn ''GET'' ''/a'' None
           [(''authorization'', ''Bearer secret''), (''accept'', ACCEPT_RDF_CONTENT_TYPES)]]"
  have n: "\<not> contains ''/a'' w3id_prefix" by code_simp
  have f: "bodyformat_of ''/a'' ''n3'' = ''n3''" by code_simp
  have d: "\<And>st ct b. doRequest (answering st ct b) ex_session [] ''/a'' ''GET'' None None
             (Some ACCEPT_RDF_CONTENT_TYPES) None False
     = (?h, None, Inr (st, ''R'', response_headers [(''Content-Type'', ct)],
                      if st < 200 \<or> st \<ge> 300 then None else Some b))"
    by (simp add: doRequest_def send_request_def answering_def ex_env_def ex_session_def
        ex_resolve_def set_if_truthy_def closing_def Let_def ACCEPT_RDF_CONTENT_TYPES_def)
  have c: "\<And>ct. response_headers [(''Content-Type'', ct)] ''content-type'' = Some (HStr ct)"
    by (simp add: response_headers_def lowered_def lower_def lower_char_def)
  have p: "\<And>st ct b. rdf_parse (answering st ct b) = ex_parse"
    by (simp add: answering_def ex_env_def)
  have t1: "map_of RDF_CONTENT_TYPES (lower (strip (split_before ''text/plain'' '';''))) = None"
    by code_simp
  have t2: "map_of RDF_CONTENT_TYPES (lower (strip (split_before ''text/turtle'' '';''))) = Some ''n3''"
    by code_simp
  have t3: "map_of RDF_CONTENT_TYPES (lower (strip (split_before ''Text/Turtle; charset=utf-8'' '';'')))
              = Some ''n3''"
    by code_simp
  have d1: "doRequest (answering 404 ''text/html'' ''x'') ex_session [] ''/a'' ''GET'' None None
             (Some ACCEPT_RDF_CONTENT_TYPES) None False
     = (?h, None, Inr (404, ''R'', response_headers [(''Content-Type'', ''text/html'')], None))"
    using d [of 404 "''text/html''" "''x''"] by simp
  have d2: "doRequest (answering 200 ''text/plain'' ''x'') ex_session [] ''/a'' ''GET'' None None
             (Some ACCEPT_RDF_CONTENT_TYPES) None False
     = (?h, None, Inr (200, ''R'', response_headers [(''Content-Type'', ''text/plain'')], Some ''x''))"
    using d [of 200 "''text/plain''" "''x''"] by simp
  have d3: "doRequest (answering 200 ''text/turtle'' ''bad'') ex_session [] ''/a'' ''GET'' None None
             (Some ACCEPT_RDF_CONTENT_TYPES) None False
     = (?h, None, Inr (200, ''R'', response_headers [(''Content-Type'', ''text/turtle'')], Some ''bad''))"
    using d [of 200 "''text/turtle''" "''bad''"] by simp
  have d4: "doRequest (answering 200 ''Text/Turtle; charset=utf-8'' ''ok'') ex_session [] ''/a'' ''GET''
             None None (Some ACCEPT_RDF_CONTENT_TYPES) None False
     = (?h, None, Inr (200, ''R'', response_headers [(''Content-Type'', ''Text/Turtle; charset=utf-8'')],
                      Some ''ok''))"
    using d [of 200 "''Text/Turtle; charset=utf-8''" "''ok''"] by simp
  have r1: "doRequestRDF (answering 404 ''text/html'' ''x'') ex_session [] ''/a'' ''GET'' None None None False None
     = (?h, None, Inr (404, ''R'', response_headers [(''Content-Type'', ''text/html'')], Body None))"
    using doRequestRDF_negotiates [OF n d1, where graph = None] by simp
  have r2: "doRequestRDF (answering 200 ''text/plain'' ''x'') ex_session [] ''/a'' ''GET'' None None None False None
     = (?h, None, Inr (901, ''Non-RDF content-type returned'',
             response_headers [(''Content-Type'', ''text/plain'')], Body (Some ''x'')))"
    using doRequestRDF_negotiates [OF n d2, where ct = "''text/plain''" and graph = None] c t1
    by simp
  have r3: "doRequestRDF (answering 200 ''text/turtle'' ''bad'') ex_session [] ''/a'' ''GET'' None None None False None
     = (?h @ [RdfParse ''bad'' ''n3''], None,
        Inr (902, ''RDF (n3) parse failure'',
             response_headers [(''Content-Type'', ''text/turtle'')], Body (Some ''bad'')))"
    using doRequestRDF_negotiates [OF n d3, where ct = "''text/turtle''" and graph = None
        and fmt = "''n3''" and d = "''bad''" and err = ValueError]
      c t2 f p by (simp add: ex_parse_def)
  have r4: "doRequestRDF (answering 200 ''Text/Turtle; charset=utf-8'' ''ok'') ex_session [] ''/a'' ''GET'' None
         None None False (Some [(URIRef ''a'', URIRef ''b'', Literal ''c'')])
     = (?h @ [RdfParse ''ok'' ''n3''], None,
        Inr (200, ''R'', response_headers [(''Content-Type'', ''Text/Turtle; charset=utf-8'')],
             Graph [(URIRef ''a'', URIRef ''b'', Literal ''c''), (URIRef ''s'', URIRef ''p'', Literal ''o'')]))"
    using doRequestRDF_negotiates [OF n d4, where ct = "''Text/Turtle; charset=utf-8''"
        and graph = "Some [(URIRef ''a'', URIRef ''b'', Literal ''c'')]" and fmt = "''n3''"
        and d = "''ok''"
        and g' = "[(URIRef ''a'', URIRef ''b'', Literal ''c''), (URIRef ''s'', URIRef ''p'', Literal ''o'')]"]
      c t3 f p by (simp add: ex_parse_def)
  from r1 r2 r3 r4 show ?thesis by simp
qed

section \<open>Claims about the remote metadata class\<close>

text \<open>
  A manifest graph that holds a triple is found by the first test of \<open>_loadManifest\<close>:
  nothing is fetched and the object is left as it is.
\<close>

lemma loadManifest_cached:
  "manifestgraph self = Some g \<Longrightarrow> g \<noteq> [] \<Longrightarrow>
   loadManifest fetch self fetched = (self, fetched, Inr g)"
  by (simp add: loadManifest_def graph_truth_def)

lemma loadManifest_stores_result:
  assumes "loadManifest fetch self fetched = (self', fetched', Inr g)"
  shows "manifestgraph self' = Some g"
proof (cases "graph_truth (manifestgraph self)")
  case True
  then obtain g0 where "manifestgraph self = Some g0" and "g0 \<noteq> []"
    by (auto simp: graph_truth_def split: option.splits)
  then show ?thesis using assms by (simp add: loadManifest_cached)
next
  case False
  then show ?thesis
    using assms by (auto simp: loadManifest_def split: if_splits sum.splits)
qed

lemma loadManifest_idempotent_when_not_empty:
  assumes "loadManifest fetch self fetched = (self', fetched', Inr g)" and "g \<noteq> []"
  shows "loadManifest fetch self' fetched' = (self', fetched', Inr g)"
  using loadManifest_stores_result [OF assms(1)] assms(2) by (rule loadManifest_cached)

text \<open>
  C9. The cache test of \<open>_loadManifest\<close> is \<open>if self.manifestgraph:\<close>, the truth value of
  the graph, and a graph without triples is false. The claim holds when the manifest read
  holds a triple (\<open>loadManifest_idempotent_when_not_empty\<close>) and fails when it holds none:
  the first call completes and returns the empty graph it read, and the second call
  makes a new graph and fetches the manifest again.
\<close>

theorem loadManifest_fetches_empty_manifest_again:
  "loadManifest empty_manifest ex_ro []
     = (ex_ro\<lparr>manifestgraph := Some []\<rparr>, [''http://example.org/ro/.ro/manifest.rdf''], Inr [])
   \<and> loadManifest empty_manifest (ex_ro\<lparr>manifestgraph := Some []\<rparr>)
         [''http://example.org/ro/.ro/manifest.rdf'']
     = (ex_ro\<lparr>manifestgraph := Some []\<rparr>,
        [''http://example.org/ro/.ro/manifest.rdf'', ''http://example.org/ro/.ro/manifest.rdf''],
        Inr [])"
  by (simp add: loadManifest_def graph_truth_def empty_manifest_def ex_ro_def)

text \<open>
  A manifest with an annotation makes the loop of \<open>_loadAnnotations\<close> run, and its first
  iteration raises.
\<close>

lemma annotations_loop_raises:
  "pairs \<noteq> [] \<Longrightarrow> annotations_loop manifest pairs anns = Inl (AttributeError ''_readAnnotationBody'')"
  by (cases pairs) auto

lemma loadAnnotations_raises:
  assumes "\<not> graph_truth (roannotations self)"
    and "loadManifest fetch self fetched = (self1, fetched1, Inr manifest)"
    and "subject_objects manifest RO_annotatesAggregatedResource \<noteq> []"
  shows "loadAnnotations fetch self fetched
           = (self1\<lparr>roannotations := Some []\<rparr>, fetched1,
              Inl (AttributeError ''_readAnnotationBody''))"
  using assms by (simp add: loadAnnotations_def annotations_loop_raises)

text \<open>
  C6. \<open>_loadAnnotations\<close> calls \<open>self._readAnnotationBody\<close> for every annotation of the
  manifest, and the class has no such method: its text in the file is a comment. For a
  manifest with one annotation whose body could be dereferenced, the call raises
  \<open>AttributeError\<close> at that annotation; the exception reaches the caller and the
  annotation graph stays empty.
\<close>

theorem loadAnnotations_raises_AttributeError:
  "loadAnnotations annotated_source ex_ro []
     = (ex_ro\<lparr>manifestgraph := Some annotated_manifest, roannotations := Some []\<rparr>,
        [''http://example.org/ro/.ro/manifest.rdf''],
        Inl (AttributeError ''_readAnnotationBody''))"
proof -
  have m: "loadManifest annotated_source ex_ro []
     = (ex_ro\<lparr>manifestgraph := Some annotated_manifest\<rparr>,
        [''http://example.org/ro/.ro/manifest.rdf''], Inr annotated_manifest)"
    by (simp add: loadManifest_def graph_truth_def annotated_source_def ex_ro_def)
  have s: "subject_objects annotated_manifest RO_annotatesAggregatedResource
     = [(BNode ''a1'', URIRef ''http://example.org/ro/data'')]"
    by (simp add: subject_objects_def annotated_manifest_def RO_annotatesAggregatedResource_def
        RDF_type_def AO_body_def)
  have t: "\<not> graph_truth (roannotations ex_ro)" by (simp add: graph_truth_def ex_ro_def)
  show ?thesis
    using t m s by (simp add: loadAnnotations_def)
qed

text \<open>What \<open>isInternalResource\<close> tests: that the RO URI starts with the resource URI.\<close>

lemma isInternalResource_tests_reverse_prefix:
  "isInternalResource ro_uri res_uri \<longleftrightarrow> prefix res_uri ro_uri"
  by (simp add: isInternalResource_def startswith_def)

text \<open>
  C5. The docstring of \<open>isInternalResource\<close> promises that it returns true when the
  resource URI has the RO URI as a prefix. On the RO \<open>http://ro/\<close> and its component
  \<open>http://ro/a\<close> the resource URI does have the RO URI as a prefix, and the function
  returns false; on the swapped arguments it returns true.
\<close>

theorem isInternalResource_swapped:
  "prefix ''http://ro/'' ''http://ro/a''
   \<and> isInternalResource ''http://ro/'' ''http://ro/a'' = False
   \<and> isInternalResource ''http://ro/a'' ''http://ro/'' = True"
  by (simp add: isInternalResource_def startswith_def)

end
